theory Spec2Isabelle
  imports Complex_Main
begin

section \<open>JavaScript values\<close>

text \<open>
  Both services handle JSON documents: risk scores and merchant rules are parsed with
  \<^verbatim>\<open>JSON.parse\<close>, and rule conditions carry a \<^verbatim>\<open>value: any\<close>. A parsed document is a
  \<open>jsval\<close>; the JavaScript value \<^verbatim>\<open>undefined\<close>, which no parsed document contains, is the
  \<open>None\<close> of \<open>jsval option\<close>. Numbers are modelled as reals: every number that the claims
  below compare is an integer or a short decimal literal, on which the comparisons of
  IEEE doubles and of reals agree.
\<close>

datatype jsval =
    JNull
  | JBool bool
  | JNum real
  | JStr string
  | JArr "jsval list"
  | JObj "(string \<times> jsval) list"

text \<open>
  What a property access can yield: \<^verbatim>\<open>undefined\<close>, a value of a document, or a value
  that no document holds, a function or a built-in object of the runtime reached through
  a prototype, known by a reference.
\<close>

datatype extracted = Undefined | Value jsval | Foreign nat

text \<open>
  The library code of the runtime that the operators and the property accesses below
  reach, and that is no code of the repository: \<^verbatim>\<open>Number.prototype.toString\<close>, the
  conversion of a string to a number (\<open>None\<close> is \<^verbatim>\<open>NaN\<close>), the lookup of a key that is no
  own property of a document value along its prototype chain (after boxing, for a
  primitive), and the lookup of a key in a function or built-in object.
\<close>

record js_builtins =
  numberToString :: "real \<Rightarrow> string"
  stringToNumber :: "string \<Rightarrow> real option"
  inheritedProperty :: "jsval \<Rightarrow> string \<Rightarrow> extracted"
  foreignProperty :: "nat \<Rightarrow> string \<Rightarrow> extracted"

fun join_with :: "string \<Rightarrow> string list \<Rightarrow> string" where
  "join_with sep [] = []"
| "join_with sep [x] = x"
| "join_with sep (x # y # ys) = x @ sep @ join_with sep (y # ys)"

text \<open>\<^verbatim>\<open>ToString\<close>: an array joins its elements with a comma, \<^verbatim>\<open>null\<close> elements as the empty string.\<close>

fun toString :: "js_builtins \<Rightarrow> jsval \<Rightarrow> string" where
  "toString B JNull = ''null''"
| "toString B (JBool b) = (if b then ''true'' else ''false'')"
| "toString B (JNum n) = numberToString B n"
| "toString B (JStr s) = s"
| "toString B (JArr xs) = join_with '','' (map (\<lambda>x. if x = JNull then [] else toString B x) xs)"
| "toString B (JObj kvs) = ''[object Object]''"

text \<open>\<^verbatim>\<open>ToNumber\<close>, as the relational operators apply it to their right operand.\<close>

fun toNumber :: "js_builtins \<Rightarrow> jsval \<Rightarrow> real option" where
  "toNumber B JNull = Some 0"
| "toNumber B (JBool b) = Some (if b then 1 else 0)"
| "toNumber B (JNum n) = Some n"
| "toNumber B (JStr s) = stringToNumber B s"
| "toNumber B (JArr xs) = stringToNumber B (toString B (JArr xs))"
| "toNumber B (JObj kvs) = stringToNumber B (toString B (JObj kvs))"

text \<open>
  Strict equality \<^verbatim>\<open>===\<close> (and \<^verbatim>\<open>SameValueZero\<close>, which differs from it on \<^verbatim>\<open>NaN\<close> only):
  primitives compare by value; arrays and objects compare by reference, and a field of
  the inspected record is never the same reference as a part of a rule.
\<close>

fun strict_eq :: "jsval \<Rightarrow> jsval \<Rightarrow> bool" where
  "strict_eq JNull JNull = True"
| "strict_eq (JBool a) (JBool b) = (a = b)"
| "strict_eq (JNum a) (JNum b) = (a = b)"
| "strict_eq (JStr a) (JStr b) = (a = b)"
| "strict_eq _ _ = False"

text \<open>\<^verbatim>\<open>a === b\<close> where \<open>a\<close> may be \<^verbatim>\<open>undefined\<close> and \<open>b\<close> is defined.\<close>

fun strict_eq_undef :: "jsval option \<Rightarrow> jsval \<Rightarrow> bool" where
  "strict_eq_undef None b = False"
| "strict_eq_undef (Some a) b = strict_eq a b"

text \<open>\<^verbatim>\<open>Array.prototype.includes\<close>, with a possibly undefined search element.\<close>

definition array_includes :: "jsval list \<Rightarrow> jsval option \<Rightarrow> bool" where
  "array_includes xs v = list_ex (\<lambda>x. strict_eq_undef v x) xs"

fun is_prefix :: "string \<Rightarrow> string \<Rightarrow> bool" where
  "is_prefix [] s = True"
| "is_prefix (c # cs) [] = False"
| "is_prefix (c # cs) (d # ds) = (c = d \<and> is_prefix cs ds)"

fun has_substring :: "string \<Rightarrow> string \<Rightarrow> bool" where
  "has_substring [] p = (p = [])"
| "has_substring (c # cs) p = (is_prefix p (c # cs) \<or> has_substring cs p)"

text \<open>\<^verbatim>\<open>String.prototype.includes\<close>: the search value is converted to a string first.\<close>

definition string_includes :: "js_builtins \<Rightarrow> string \<Rightarrow> jsval \<Rightarrow> bool" where
  "string_includes B s v = has_substring s (toString B v)"

text \<open>\<^verbatim>\<open>n > v\<close> and its three siblings, for a number \<open>n\<close>: false when \<open>v\<close> converts to \<^verbatim>\<open>NaN\<close>.\<close>

definition num_cmp :: "js_builtins \<Rightarrow> (real \<Rightarrow> real \<Rightarrow> bool) \<Rightarrow> real \<Rightarrow> jsval \<Rightarrow> bool" where
  "num_cmp B rel n v = (case toNumber B v of None \<Rightarrow> False | Some m \<Rightarrow> rel n m)"

text \<open>\<^verbatim>\<open>String.prototype.split\<close> with a one-character separator.\<close>

fun split_on :: "char \<Rightarrow> string \<Rightarrow> string list" where
  "split_on sep [] = [[]]"
| "split_on sep (c # cs) =
     (if c = sep then [] # split_on sep cs
      else (case split_on sep cs of
              [] \<Rightarrow> [[c]]
            | w # ws \<Rightarrow> (c # w) # ws))"

text \<open>A canonical array index: decimal digits with no leading zero.\<close>

definition digit_val :: "char \<Rightarrow> nat option" where
  "digit_val c =
     (let n = (of_char c :: nat) in if 48 \<le> n \<and> n \<le> 57 then Some (n - 48) else None)"

fun digits_val :: "nat \<Rightarrow> string \<Rightarrow> nat option" where
  "digits_val acc [] = Some acc"
| "digits_val acc (c # cs) =
     (case digit_val c of None \<Rightarrow> None | Some d \<Rightarrow> digits_val (10 * acc + d) cs)"

definition array_index :: "string \<Rightarrow> nat option" where
  "array_index s =
     (case s of
        [] \<Rightarrow> None
      | c # cs \<Rightarrow> if c = CHR ''0'' \<and> cs \<noteq> [] then None else digits_val 0 s)"

text \<open>
  The own properties of a value of type \<^verbatim>\<open>'object'\<close>: the keys of an object (of a key that
  occurs twice, \<^verbatim>\<open>JSON.parse\<close> keeps the last value), the elements and the length of an
  array. The Decisioner's extraction reads these only: the members that a value inherits
  from its prototype are left out of it, and a path of a Decisioner rule is taken not to
  name one. The Evaluator's extraction, further down, adds them.
\<close>

definition object_get :: "(string \<times> jsval) list \<Rightarrow> string \<Rightarrow> jsval option" where
  "object_get kvs k = map_of (rev kvs) k"

definition array_get :: "jsval list \<Rightarrow> string \<Rightarrow> jsval option" where
  "array_get xs k =
     (if k = ''length'' then Some (JNum (real (length xs)))
      else (case array_index k of
              None \<Rightarrow> None
            | Some i \<Rightarrow> if i < length xs then Some (xs ! i) else None))"

section \<open>Decisioner: data model\<close>

datatype Decision = approve | review | reject

datatype RiskLevel = low | medium | high | critical

datatype Operator = op_eq | op_neq | op_gt | op_gte | op_lt | op_lte
  | op_contains | op_not_contains | op_in | op_not_in | op_other

record RuleCondition =
  field :: string
  operator :: Operator
  cond_value :: jsval

record Rule =
  rule_id :: string
  rule_name :: string
  description :: "string option"
  conditions :: "RuleCondition list"
  action :: Decision
  priority :: real
  isEnabled :: bool

record RiskScore =
  rs_id :: string
  rs_evaluationId :: string
  rs_sessionId :: string
  rs_merchantId :: string
  rs_visitorId :: string
  score :: real
  isFraud :: bool
  riskFactors :: "string list"
  rs_timestamp :: int

record MerchantRules =
  mr_merchantId :: string
  riskThreshold :: real
  highRiskThreshold :: real
  automaticReject :: bool
  manualReviewThreshold :: "real option"
  customRules :: "Rule list option"
  updatedAt :: int

record TransactionDecision =
  td_id :: string
  td_evaluationId :: string
  td_merchantId :: string
  decision :: Decision
  riskScore :: real
  riskLevel :: RiskLevel
  reasoning :: "string list"
  createdAt :: int

text \<open>\<^verbatim>\<open>config.rules\<close> of the Decisioner; the values when the environment sets neither variable.\<close>

record RulesConfig =
  cfg_defaultRiskThreshold :: real
  cfg_highRiskThreshold :: real

definition default_config :: RulesConfig where
  "default_config = \<lparr>cfg_defaultRiskThreshold = 7 / 10, cfg_highRiskThreshold = 9 / 10\<rparr>"

section \<open>Decisioner: risk level and decision record\<close>

definition getRiskLevel :: "real \<Rightarrow> RiskLevel" where
  "getRiskLevel s =
     (if s \<ge> 9 / 10 then critical
      else if s \<ge> 7 / 10 then high
      else if s \<ge> 4 / 10 then medium
      else low)"

text \<open>
  \<^verbatim>\<open>createDecision\<close>: the reasoning argument is a string or an array of strings, the
  creation time is \<^verbatim>\<open>Date.now()\<close>, passed as \<open>now\<close>.
\<close>

definition createDecision ::
  "int \<Rightarrow> RiskScore \<Rightarrow> string \<Rightarrow> Decision \<Rightarrow> string + string list \<Rightarrow> TransactionDecision" where
  "createDecision now rs decisionId d reasoning' =
     \<lparr>td_id = decisionId,
      td_evaluationId = rs_evaluationId rs,
      td_merchantId = rs_merchantId rs,
      decision = d,
      riskScore = score rs,
      riskLevel = getRiskLevel (score rs),
      reasoning = (case reasoning' of Inl s \<Rightarrow> [s] | Inr ss \<Rightarrow> ss),
      createdAt = now\<rparr>"

section \<open>Decisioner: condition evaluator and rule engine\<close>

text \<open>
  The risk score as the object that \<^verbatim>\<open>JSON.parse\<close> returned for the message, with the
  fields of the \<^verbatim>\<open>RiskScore\<close> interface.
\<close>

definition riskScoreObject :: "RiskScore \<Rightarrow> jsval" where
  "riskScoreObject rs = JObj
     [(''id'', JStr (rs_id rs)),
      (''evaluationId'', JStr (rs_evaluationId rs)),
      (''sessionId'', JStr (rs_sessionId rs)),
      (''merchantId'', JStr (rs_merchantId rs)),
      (''visitorId'', JStr (rs_visitorId rs)),
      (''score'', JNum (score rs)),
      (''isFraud'', JBool (isFraud rs)),
      (''riskFactors'', JArr (map JStr (riskFactors rs))),
      (''timestamp'', JNum (real_of_int (rs_timestamp rs)))]"

text \<open>
  The loop of \<^verbatim>\<open>getFieldValue\<close>: before each segment the value must be a non-null value
  of type \<^verbatim>\<open>'object'\<close> (an object or an array), otherwise the result is \<^verbatim>\<open>undefined\<close>.
\<close>

fun walkFieldValue :: "jsval option \<Rightarrow> string list \<Rightarrow> jsval option" where
  "walkFieldValue v [] = v"
| "walkFieldValue v (part # parts) =
     (case v of
        Some (JObj kvs) \<Rightarrow> walkFieldValue (object_get kvs part) parts
      | Some (JArr xs) \<Rightarrow> walkFieldValue (array_get xs part) parts
      | _ \<Rightarrow> None)"

definition getFieldValueOf :: "jsval \<Rightarrow> string \<Rightarrow> jsval option" where
  "getFieldValueOf obj fld = walkFieldValue (Some obj) (split_on CHR ''.'' fld)"

definition getFieldValue :: "RiskScore \<Rightarrow> string \<Rightarrow> jsval option" where
  "getFieldValue rs fld = getFieldValueOf (riskScoreObject rs) fld"

text \<open>The \<^verbatim>\<open>switch\<close> of \<^verbatim>\<open>matchesCondition\<close>, on the extracted field value.\<close>

definition matchesOperator :: "js_builtins \<Rightarrow> Operator \<Rightarrow> jsval option \<Rightarrow> jsval \<Rightarrow> bool" where
  "matchesOperator B opr fieldValue v =
     (case opr of
        op_eq \<Rightarrow> strict_eq_undef fieldValue v
      | op_neq \<Rightarrow> \<not> strict_eq_undef fieldValue v
      | op_gt \<Rightarrow> (case fieldValue of Some (JNum n) \<Rightarrow> num_cmp B (>) n v | _ \<Rightarrow> False)
      | op_gte \<Rightarrow> (case fieldValue of Some (JNum n) \<Rightarrow> num_cmp B (\<ge>) n v | _ \<Rightarrow> False)
      | op_lt \<Rightarrow> (case fieldValue of Some (JNum n) \<Rightarrow> num_cmp B (<) n v | _ \<Rightarrow> False)
      | op_lte \<Rightarrow> (case fieldValue of Some (JNum n) \<Rightarrow> num_cmp B (\<le>) n v | _ \<Rightarrow> False)
      | op_contains \<Rightarrow>
          (case fieldValue of
             Some (JArr xs) \<Rightarrow> array_includes xs (Some v)
           | Some (JStr s) \<Rightarrow> string_includes B s v
           | _ \<Rightarrow> False)
      | op_not_contains \<Rightarrow>
          (case fieldValue of
             Some (JArr xs) \<Rightarrow> \<not> array_includes xs (Some v)
           | Some (JStr s) \<Rightarrow> \<not> string_includes B s v
           | _ \<Rightarrow> True)
      | op_in \<Rightarrow> (case v of JArr ys \<Rightarrow> array_includes ys fieldValue | _ \<Rightarrow> False)
      | op_not_in \<Rightarrow> (case v of JArr ys \<Rightarrow> \<not> array_includes ys fieldValue | _ \<Rightarrow> True)
      | op_other \<Rightarrow> False)"

definition matchesConditionOf :: "js_builtins \<Rightarrow> jsval \<Rightarrow> RuleCondition \<Rightarrow> bool" where
  "matchesConditionOf B obj c =
     matchesOperator B (operator c) (getFieldValueOf obj (field c)) (cond_value c)"

definition matchesCondition :: "js_builtins \<Rightarrow> RiskScore \<Rightarrow> RuleCondition \<Rightarrow> bool" where
  "matchesCondition B rs c = matchesConditionOf B (riskScoreObject rs) c"

definition matchesRule :: "js_builtins \<Rightarrow> RiskScore \<Rightarrow> Rule \<Rightarrow> bool" where
  "matchesRule B rs r = list_all (matchesCondition B rs) (conditions r)"

text \<open>
  \<^verbatim>\<open>.sort((a, b) => b.priority - a.priority)\<close>: the sort of the runtime is stable, so the
  rules end up by descending priority, rules of equal priority in their former order.
\<close>

definition sortByPriority :: "Rule list \<Rightarrow> Rule list" where
  "sortByPriority rs = sort_key (\<lambda>r. - priority r) rs"

definition ruleReason :: "Rule \<Rightarrow> string" where
  "ruleReason r =
     ''Rule '' @ [CHR 0x27] @ rule_name r @ [CHR 0x27] @ '' applied: '' @
     (case description r of
        None \<Rightarrow> rule_id r
      | Some d \<Rightarrow> if d = [] then rule_id r else d)"

definition applyCustomRules :: "js_builtins \<Rightarrow> RiskScore \<Rightarrow> MerchantRules \<Rightarrow> (Decision \<times> string) option" where
  "applyCustomRules B rs mr =
     (case customRules mr of
        None \<Rightarrow> None
      | Some rules \<Rightarrow>
          if rules = [] then None
          else (case find (matchesRule B rs) (sortByPriority (filter isEnabled rules)) of
                  None \<Rightarrow> None
                | Some r \<Rightarrow> Some (action r, ruleReason r)))"

section \<open>Decisioner: decision\<close>

text \<open>
  The part of \<^verbatim>\<open>makeDecision\<close> that follows the lookup of the merchant's rules: the
  custom rules first, the thresholds when none of them matches.
\<close>

definition thresholdDecision :: "RiskScore \<Rightarrow> MerchantRules \<Rightarrow> Decision" where
  "thresholdDecision rs mr =
     (if score rs \<ge> highRiskThreshold mr then (if automaticReject mr then reject else review)
      else if score rs \<ge> riskThreshold mr then review
      else approve)"

definition thresholdReasoning :: "js_builtins \<Rightarrow> RiskScore \<Rightarrow> MerchantRules \<Rightarrow> string list" where
  "thresholdReasoning B rs mr =
     [if score rs \<ge> highRiskThreshold mr then
        ''Risk score '' @ numberToString B (score rs) @ '' exceeds high risk threshold '' @
        numberToString B (highRiskThreshold mr)
      else if score rs \<ge> riskThreshold mr then
        ''Risk score '' @ numberToString B (score rs) @ '' exceeds risk threshold '' @
        numberToString B (riskThreshold mr)
      else
        ''Risk score '' @ numberToString B (score rs) @ '' below risk threshold '' @
        numberToString B (riskThreshold mr)] @
     (if riskFactors rs \<noteq> [] then [''Risk factors: '' @ join_with '', '' (riskFactors rs)] else [])"

definition decideWith :: "js_builtins \<Rightarrow> int \<Rightarrow> RiskScore \<Rightarrow> string \<Rightarrow> MerchantRules \<Rightarrow> TransactionDecision" where
  "decideWith B now rs decisionId mr =
     (case applyCustomRules B rs mr of
        Some (d, reason) \<Rightarrow> createDecision now rs decisionId d (Inl reason)
      | None \<Rightarrow>
          createDecision now rs decisionId (thresholdDecision rs mr) (Inr (thresholdReasoning B rs mr)))"

section \<open>Decisioner: cache, producer and processing of a risk score\<close>

datatype error = RedisNotInitialized | ProducerNotConnected

text \<open>
  The state of the Decisioner's collaborators. The Redis client is \<^verbatim>\<open>null\<close> until it is
  initialised; the store holds JSON texts, modelled by the documents they parse to (a
  text that does not parse reads as a missing key); the keys of rules and of decisions
  never coincide, so each family has its own map. The producer publishes when connected.
\<close>

record DecisionerState =
  redisClient :: bool
  rulesStore :: "string \<rightharpoonup> MerchantRules"
  decisionStore :: "string \<rightharpoonup> TransactionDecision \<times> nat"
  producerConnected :: bool
  published :: "TransactionDecision list"
  errorLog :: "error list"

definition redis_getMerchantRules :: "DecisionerState \<Rightarrow> string \<Rightarrow> error + MerchantRules option" where
  "redis_getMerchantRules st merchantId =
     (if \<not> redisClient st then Inl RedisNotInitialized
      else Inr (rulesStore st (''merchant:'' @ merchantId @ '':rules'')))"

definition redis_storeDecision ::
  "DecisionerState \<Rightarrow> string \<Rightarrow> TransactionDecision \<Rightarrow> error + DecisionerState" where
  "redis_storeDecision st decisionId d =
     (if \<not> redisClient st then Inl RedisNotInitialized
      else Inr (st\<lparr>decisionStore := (decisionStore st)(''decision:'' @ decisionId \<mapsto> (d, 86400))\<rparr>))"

definition publishDecision :: "DecisionerState \<Rightarrow> TransactionDecision \<Rightarrow> error + DecisionerState" where
  "publishDecision st d =
     (if \<not> producerConnected st then Inl ProducerNotConnected
      else Inr (st\<lparr>published := published st @ [d]\<rparr>))"

definition getMerchantRules ::
  "RulesConfig \<Rightarrow> int \<Rightarrow> DecisionerState \<Rightarrow> string \<Rightarrow> error + MerchantRules" where
  "getMerchantRules cfg now st merchantId =
     (case redis_getMerchantRules st merchantId of
        Inl e \<Rightarrow> Inl e
      | Inr (Some merchantRules) \<Rightarrow> Inr merchantRules
      | Inr None \<Rightarrow>
          (case redis_getMerchantRules st ''default'' of
             Inl e \<Rightarrow> Inl e
           | Inr None \<Rightarrow>
               Inr \<lparr>mr_merchantId = merchantId,
                    riskThreshold = cfg_defaultRiskThreshold cfg,
                    highRiskThreshold = cfg_highRiskThreshold cfg,
                    automaticReject = True,
                    manualReviewThreshold = None,
                    customRules = None,
                    updatedAt = now\<rparr>
           | Inr (Some defaultRules) \<Rightarrow> Inr (defaultRules\<lparr>mr_merchantId := merchantId\<rparr>)))"

definition makeDecision ::
  "js_builtins \<Rightarrow> RulesConfig \<Rightarrow> int \<Rightarrow> DecisionerState \<Rightarrow> RiskScore \<Rightarrow> string \<Rightarrow> error + TransactionDecision" where
  "makeDecision B cfg now st rs decisionId =
     (case getMerchantRules cfg now st (rs_merchantId rs) of
        Inl e \<Rightarrow> Inl e
      | Inr merchantRules \<Rightarrow> Inr (decideWith B now rs decisionId merchantRules))"

text \<open>
  \<^verbatim>\<open>processRiskScore\<close> returns nothing and throws nothing: its \<^verbatim>\<open>catch\<close> logs the error,
  and what was written before the error stays written. \<open>decisionId\<close> is the identifier
  \<^verbatim>\<open>uuidv4()\<close> drew, \<open>now\<close> the clock.
\<close>

definition processRiskScore_try ::
  "js_builtins \<Rightarrow> RulesConfig \<Rightarrow> int \<Rightarrow> string \<Rightarrow> DecisionerState \<Rightarrow> RiskScore \<Rightarrow>
     error \<times> DecisionerState + DecisionerState" where
  "processRiskScore_try B cfg now decisionId st rs =
     (case makeDecision B cfg now st rs decisionId of
        Inl e \<Rightarrow> Inl (e, st)
      | Inr d \<Rightarrow>
          (case redis_storeDecision st decisionId d of
             Inl e \<Rightarrow> Inl (e, st)
           | Inr st1 \<Rightarrow>
               (case publishDecision st1 d of
                  Inl e \<Rightarrow> Inl (e, st1)
                | Inr st2 \<Rightarrow> Inr st2)))"

definition processRiskScore ::
  "js_builtins \<Rightarrow> RulesConfig \<Rightarrow> int \<Rightarrow> string \<Rightarrow> DecisionerState \<Rightarrow> RiskScore \<Rightarrow> DecisionerState" where
  "processRiskScore B cfg now decisionId st rs =
     (case processRiskScore_try B cfg now decisionId st rs of
        Inl (e, st') \<Rightarrow> st'\<lparr>errorLog := errorLog st' @ [e]\<rparr>
      | Inr st' \<Rightarrow> st')"

section \<open>Decisioner: consumer loop\<close>

text \<open>
  A message of the topic: its offset and the document its payload parses to (\<open>None\<close>
  when \<^verbatim>\<open>JSON.parse\<close> throws or yields no object). A required field that is missing
  reads as the empty string; both are falsy.
\<close>

record KafkaMessage =
  msg_offset :: nat
  msg_value :: "RiskScore option"

definition parseMessage :: "KafkaMessage \<Rightarrow> RiskScore option" where
  "parseMessage m =
     (case msg_value m of
        None \<Rightarrow> None
      | Some rs \<Rightarrow>
          if rs_id rs = [] \<or> rs_evaluationId rs = [] \<or> rs_merchantId rs = [] then None
          else Some rs)"

text \<open>What the environment hands out while a message is handled: the clock and a fresh identifier.\<close>

record Draws =
  dateNow :: "nat \<Rightarrow> int"
  uuidv4 :: "nat \<Rightarrow> string"

fun processMessages ::
  "js_builtins \<Rightarrow> RulesConfig \<Rightarrow> Draws \<Rightarrow> DecisionerState \<Rightarrow> KafkaMessage list \<Rightarrow> DecisionerState" where
  "processMessages B cfg D st [] = st"
| "processMessages B cfg D st (m # ms) =
     (case parseMessage m of
        None \<Rightarrow> processMessages B cfg D st ms
      | Some rs \<Rightarrow>
          processMessages B cfg D
            (processRiskScore B cfg (dateNow D (msg_offset m)) (uuidv4 D (msg_offset m)) st rs) ms)"

text \<open>
  What one call of \<^verbatim>\<open>consumer.consume\<close> does: it throws, or calls back with an error or
  with the messages it fetched.
\<close>

datatype ConsumeOutcome = ConsumeThrows | ConsumeError | ConsumeMessages "KafkaMessage list"

record ConsumerState =
  isRunning :: bool
  hasConsumer :: bool
  service :: DecisionerState
  committedBatches :: "KafkaMessage list list"
  pollTimer :: "nat option"

text \<open>
  One run of \<^verbatim>\<open>poll\<close>; \<open>interval\<close> is \<^verbatim>\<open>config.kafka.consumerPollInterval\<close>. A commit is
  recorded by the batch it follows; the call of \<^verbatim>\<open>commit\<close> itself is taken to succeed.
\<close>

definition poll ::
  "js_builtins \<Rightarrow> RulesConfig \<Rightarrow> Draws \<Rightarrow> nat \<Rightarrow> ConsumerState \<Rightarrow> ConsumeOutcome \<Rightarrow> ConsumerState" where
  "poll B cfg D interval cs outcome =
     (if \<not> isRunning cs \<or> \<not> hasConsumer cs then cs
      else (case outcome of
              ConsumeThrows \<Rightarrow> cs\<lparr>pollTimer := Some 5000\<rparr>
            | ConsumeError \<Rightarrow> cs\<lparr>pollTimer := Some 5000\<rparr>
            | ConsumeMessages messages \<Rightarrow>
                (if messages \<noteq> [] then
                   cs\<lparr>service := processMessages B cfg D (service cs) messages,
                      committedBatches := committedBatches cs @ [messages],
                      pollTimer := Some interval\<rparr>
                 else cs\<lparr>pollTimer := Some interval\<rparr>)))"

text \<open>The loop: each timer expiry runs \<^verbatim>\<open>poll\<close> again, on the next outcome of the broker.\<close>

fun pollLoop ::
  "js_builtins \<Rightarrow> RulesConfig \<Rightarrow> Draws \<Rightarrow> nat \<Rightarrow> ConsumerState \<Rightarrow> ConsumeOutcome list \<Rightarrow> ConsumerState" where
  "pollLoop B cfg D interval cs [] = cs"
| "pollLoop B cfg D interval cs (outcome # rest) =
     pollLoop B cfg D interval (poll B cfg D interval cs outcome) rest"

text \<open>A message that the handler did not turn into a stored and published decision.\<close>

definition handlerFails ::
  "js_builtins \<Rightarrow> RulesConfig \<Rightarrow> Draws \<Rightarrow> DecisionerState \<Rightarrow> KafkaMessage \<Rightarrow> bool" where
  "handlerFails B cfg D st m =
     (case parseMessage m of
        None \<Rightarrow> False
      | Some rs \<Rightarrow>
          (case processRiskScore_try B cfg (dateNow D (msg_offset m)) (uuidv4 D (msg_offset m)) st rs of
             Inl e \<Rightarrow> True
           | Inr st' \<Rightarrow> False))"

section \<open>Evaluator: data model\<close>

record DeviceData =
  visitorId :: string
  requestId :: string
  incognito :: bool
  browserName :: string
  deviceType :: string
  os :: string
  confidence :: "real option"
  signals :: "jsval option"

record GeoData =
  country :: "string option"
  city :: "string option"
  continent :: "string option"
  latitude :: "real option"
  longitude :: "real option"
  timezone :: "string option"
  postalCode :: "string option"
  isp :: "string option"
  asn :: "string option"

record VelocityData =
  sessionCount24h :: "int option"
  ipSessionCount24h :: "int option"
  deviceSessionCount24h :: "int option"
  lastSeenTimestamp :: "int option"

record EnrichedEvent =
  sessionId :: string
  merchantId :: string
  fingerprintData :: DeviceData
  pageData :: "jsval option"
  userAction :: "string option"
  ev_timestamp :: real
  ipAddress :: string
  anonymizedIp :: "string option"
  geoData :: "GeoData option"
  velocityData :: "VelocityData option"
  ev_riskFactors :: "string list option"
  ev_riskScore :: "real option"
  ev_isFraud :: "bool option"
  evaluationId :: "string option"
  requiresCaptcha :: "bool option"

record MerchantSettings =
  ms_riskThreshold :: real
  enableCaptcha :: bool
  captchaThreshold :: real
  ipAnonymization :: bool
  webhookUrl :: "string option"
  notificationEmail :: "string option"

datatype EvalAction = flag | block | challenge

record EvalRule =
  er_id :: string
  er_merchantId :: string
  er_name :: string
  er_description :: "string option"
  er_conditions :: "RuleCondition list"
  er_action :: EvalAction
  riskScoreAdjustment :: real
  isActive :: bool

definition DEFAULT_MERCHANT_SETTINGS :: MerchantSettings where
  "DEFAULT_MERCHANT_SETTINGS =
     \<lparr>ms_riskThreshold = 70, enableCaptcha = True, captchaThreshold = 80,
      ipAnonymization = False, webhookUrl = None, notificationEmail = None\<rparr>"

section \<open>Evaluator: rule conditions on an event\<close>

text \<open>The event as the object the rule conditions inspect; an absent optional field is no key.\<close>

definition opt_field :: "string \<Rightarrow> ('a \<Rightarrow> jsval) \<Rightarrow> 'a option \<Rightarrow> (string \<times> jsval) list" where
  "opt_field k f v = (case v of None \<Rightarrow> [] | Some x \<Rightarrow> [(k, f x)])"

definition deviceObject :: "DeviceData \<Rightarrow> jsval" where
  "deviceObject d = JObj
     ([(''visitorId'', JStr (visitorId d)),
       (''requestId'', JStr (requestId d)),
       (''incognito'', JBool (incognito d)),
       (''browserName'', JStr (browserName d)),
       (''deviceType'', JStr (deviceType d)),
       (''os'', JStr (os d))] @
      opt_field ''confidence'' JNum (confidence d) @
      opt_field ''signals'' (\<lambda>x. x) (signals d))"

definition geoObject :: "GeoData \<Rightarrow> jsval" where
  "geoObject g = JObj
     (opt_field ''country'' JStr (country g) @
      opt_field ''city'' JStr (city g) @
      opt_field ''continent'' JStr (continent g) @
      opt_field ''latitude'' JNum (latitude g) @
      opt_field ''longitude'' JNum (longitude g) @
      opt_field ''timezone'' JStr (timezone g) @
      opt_field ''postalCode'' JStr (postalCode g) @
      opt_field ''isp'' JStr (isp g) @
      opt_field ''asn'' JStr (asn g))"

definition velocityObject :: "VelocityData \<Rightarrow> jsval" where
  "velocityObject v = JObj
     (opt_field ''sessionCount24h'' (\<lambda>n. JNum (real_of_int n)) (sessionCount24h v) @
      opt_field ''ipSessionCount24h'' (\<lambda>n. JNum (real_of_int n)) (ipSessionCount24h v) @
      opt_field ''deviceSessionCount24h'' (\<lambda>n. JNum (real_of_int n)) (deviceSessionCount24h v) @
      opt_field ''lastSeenTimestamp'' (\<lambda>n. JNum (real_of_int n)) (lastSeenTimestamp v))"

definition eventObject :: "EnrichedEvent \<Rightarrow> jsval" where
  "eventObject e = JObj
     ([(''sessionId'', JStr (sessionId e)),
       (''merchantId'', JStr (merchantId e)),
       (''fingerprintData'', deviceObject (fingerprintData e))] @
      opt_field ''pageData'' (\<lambda>x. x) (pageData e) @
      opt_field ''userAction'' JStr (userAction e) @
      [(''timestamp'', JNum (ev_timestamp e)),
       (''ipAddress'', JStr (ipAddress e))] @
      opt_field ''anonymizedIp'' JStr (anonymizedIp e) @
      opt_field ''geoData'' geoObject (geoData e) @
      opt_field ''velocityData'' velocityObject (velocityData e) @
      opt_field ''riskFactors'' (\<lambda>fs. JArr (map JStr fs)) (ev_riskFactors e) @
      opt_field ''riskScore'' JNum (ev_riskScore e) @
      opt_field ''isFraud'' JBool (ev_isFraud e) @
      opt_field ''evaluationId'' JStr (evaluationId e) @
      opt_field ''requiresCaptcha'' JBool (requiresCaptcha e))"

text \<open>The own properties of a string: its length and its characters.\<close>

definition string_get :: "string \<Rightarrow> string \<Rightarrow> jsval option" where
  "string_get s k =
     (if k = ''length'' then Some (JNum (real (length s)))
      else (case array_index k of
              None \<Rightarrow> None
            | Some i \<Rightarrow> if i < length s then Some (JStr [s ! i]) else None))"

text \<open>
  \<^verbatim>\<open>value[key]\<close> in \<^verbatim>\<open>getNestedValue\<close>, which applies to every value but \<^verbatim>\<open>null\<close> and
  \<^verbatim>\<open>undefined\<close>: an own property where there is one (a number or a boolean has none), else
  what the prototype chain gives.
\<close>

fun ownProperty :: "jsval \<Rightarrow> string \<Rightarrow> jsval option" where
  "ownProperty (JObj kvs) k = object_get kvs k"
| "ownProperty (JArr xs) k = array_get xs k"
| "ownProperty (JStr s) k = string_get s k"
| "ownProperty (JNum n) k = None"
| "ownProperty (JBool b) k = None"
| "ownProperty JNull k = None"

definition propertyOf :: "js_builtins \<Rightarrow> jsval \<Rightarrow> string \<Rightarrow> extracted" where
  "propertyOf B x k = (case ownProperty x k of Some y \<Rightarrow> Value y | None \<Rightarrow> inheritedProperty B x k)"

text \<open>The loop of \<^verbatim>\<open>getNestedValue\<close>: only \<^verbatim>\<open>null\<close> and \<^verbatim>\<open>undefined\<close> stop it.\<close>

fun walkNestedValue :: "js_builtins \<Rightarrow> extracted \<Rightarrow> string list \<Rightarrow> extracted" where
  "walkNestedValue B v [] = v"
| "walkNestedValue B v (key # keys) =
     (case v of
        Undefined \<Rightarrow> Undefined
      | Value x \<Rightarrow> if x = JNull then Undefined else walkNestedValue B (propertyOf B x key) keys
      | Foreign r \<Rightarrow> walkNestedValue B (foreignProperty B r key) keys)"

definition getNestedValue :: "js_builtins \<Rightarrow> jsval \<Rightarrow> string \<Rightarrow> extracted" where
  "getNestedValue B obj path = walkNestedValue B (Value obj) (split_on CHR ''.'' path)"

text \<open>
  The extracted value as an operand of \<^verbatim>\<open>===\<close> and of \<^verbatim>\<open>includes\<close>: a function or built-in
  object is strictly equal to no value of a rule, as \<^verbatim>\<open>undefined\<close> is.
\<close>

fun as_document :: "extracted \<Rightarrow> jsval option" where
  "as_document Undefined = None"
| "as_document (Value x) = Some x"
| "as_document (Foreign r) = None"

text \<open>The \<^verbatim>\<open>switch\<close> inside \<^verbatim>\<open>evaluateRule\<close>, on the extracted field value.\<close>

definition evaluateOperator :: "js_builtins \<Rightarrow> Operator \<Rightarrow> extracted \<Rightarrow> jsval \<Rightarrow> bool" where
  "evaluateOperator B opr fieldValue v =
     (case opr of
        op_eq \<Rightarrow> strict_eq_undef (as_document fieldValue) v
      | op_neq \<Rightarrow> \<not> strict_eq_undef (as_document fieldValue) v
      | op_gt \<Rightarrow> (case fieldValue of Value (JNum n) \<Rightarrow> num_cmp B (>) n v | _ \<Rightarrow> False)
      | op_gte \<Rightarrow> (case fieldValue of Value (JNum n) \<Rightarrow> num_cmp B (\<ge>) n v | _ \<Rightarrow> False)
      | op_lt \<Rightarrow> (case fieldValue of Value (JNum n) \<Rightarrow> num_cmp B (<) n v | _ \<Rightarrow> False)
      | op_lte \<Rightarrow> (case fieldValue of Value (JNum n) \<Rightarrow> num_cmp B (\<le>) n v | _ \<Rightarrow> False)
      | op_contains \<Rightarrow> (case fieldValue of Value (JStr s) \<Rightarrow> string_includes B s v | _ \<Rightarrow> False)
      | op_not_contains \<Rightarrow> (case fieldValue of Value (JStr s) \<Rightarrow> \<not> string_includes B s v | _ \<Rightarrow> False)
      | op_in \<Rightarrow> (case v of JArr ys \<Rightarrow> array_includes ys (as_document fieldValue) | _ \<Rightarrow> False)
      | op_not_in \<Rightarrow> (case v of JArr ys \<Rightarrow> \<not> array_includes ys (as_document fieldValue) | _ \<Rightarrow> False)
      | op_other \<Rightarrow> False)"

definition evaluateCondition :: "js_builtins \<Rightarrow> jsval \<Rightarrow> RuleCondition \<Rightarrow> bool" where
  "evaluateCondition B obj c =
     evaluateOperator B (operator c) (getNestedValue B obj (field c)) (cond_value c)"

definition evaluateRule :: "js_builtins \<Rightarrow> EvalRule \<Rightarrow> EnrichedEvent \<Rightarrow> bool" where
  "evaluateRule B rule event = list_all (evaluateCondition B (eventObject event)) (er_conditions rule)"

section \<open>Evaluator: cache, counters and producer\<close>

text \<open>
  The Evaluator's Redis and producer. The cached settings and rules are JSON texts,
  modelled by the documents they parse to, with the lifetime they were stored with; the
  velocity keys hold decimal integers, with the lifetime of the key when it has one. The
  three key families never coincide. Expiry is the store dropping a key and is no step
  of the program.
\<close>

record EvaluatorState =
  ev_redisClient :: bool
  settingsCache :: "string \<rightharpoonup> MerchantSettings \<times> nat"
  rulesCache :: "string \<rightharpoonup> EvalRule list \<times> nat"
  velocityStore :: "string \<rightharpoonup> int \<times> nat option"
  ev_producerConnected :: bool
  ev_published :: "RiskScore list"

definition incrRedisValue :: "EvaluatorState \<Rightarrow> string \<Rightarrow> error + int \<times> EvaluatorState" where
  "incrRedisValue st key =
     (if \<not> ev_redisClient st then Inl RedisNotInitialized
      else (case velocityStore st key of
              None \<Rightarrow> Inr (1, st\<lparr>velocityStore := (velocityStore st)(key \<mapsto> (1, None))\<rparr>)
            | Some (n, t) \<Rightarrow> Inr (n + 1, st\<lparr>velocityStore := (velocityStore st)(key \<mapsto> (n + 1, t))\<rparr>)))"

definition setRedisValue :: "EvaluatorState \<Rightarrow> string \<Rightarrow> int \<Rightarrow> nat \<Rightarrow> error + EvaluatorState" where
  "setRedisValue st key v expireSeconds =
     (if \<not> ev_redisClient st then Inl RedisNotInitialized
      else if expireSeconds \<noteq> 0
        then Inr (st\<lparr>velocityStore := (velocityStore st)(key \<mapsto> (v, Some expireSeconds))\<rparr>)
        else Inr (st\<lparr>velocityStore := (velocityStore st)(key \<mapsto> (v, None))\<rparr>))"

definition getRedisValue :: "EvaluatorState \<Rightarrow> string \<Rightarrow> error + int option" where
  "getRedisValue st key =
     (if \<not> ev_redisClient st then Inl RedisNotInitialized
      else Inr (map_option fst (velocityStore st key)))"

definition produceEvent :: "EvaluatorState \<Rightarrow> RiskScore \<Rightarrow> error + EvaluatorState" where
  "produceEvent st rs =
     (if \<not> ev_producerConnected st then Inl ProducerNotConnected
      else Inr (st\<lparr>ev_published := ev_published st @ [rs]\<rparr>))"

text \<open>\<^verbatim>\<open>getMerchantSettings\<close>: the cached settings, else the defaults, cached for five minutes.\<close>

definition getMerchantSettings :: "EvaluatorState \<Rightarrow> string \<Rightarrow> MerchantSettings \<times> EvaluatorState" where
  "getMerchantSettings st mid =
     (let cacheKey = ''merchant:'' @ mid @ '':settings'' in
      if \<not> ev_redisClient st then (DEFAULT_MERCHANT_SETTINGS, st)
      else (case settingsCache st cacheKey of
              Some (cachedSettings, t) \<Rightarrow> (cachedSettings, st)
            | None \<Rightarrow>
                (DEFAULT_MERCHANT_SETTINGS,
                 st\<lparr>settingsCache := (settingsCache st)(cacheKey \<mapsto> (DEFAULT_MERCHANT_SETTINGS, 300))\<rparr>)))"

definition sampleRules :: "string \<Rightarrow> EvalRule list" where
  "sampleRules mid =
     [\<lparr>er_id = ''1'', er_merchantId = mid, er_name = ''High Risk Country'',
       er_description = Some ''Flag transactions from high-risk countries'',
       er_conditions =
         [\<lparr>field = ''geoData.country'', operator = op_in,
           cond_value = JArr [JStr ''RU'', JStr ''NG'', JStr ''BR'', JStr ''VN'']\<rparr>],
       er_action = flag, riskScoreAdjustment = 30, isActive = True\<rparr>,
      \<lparr>er_id = ''2'', er_merchantId = mid, er_name = ''Suspicious Device'',
       er_description = Some ''Block transactions from devices with suspicious characteristics'',
       er_conditions =
         [\<lparr>field = ''fingerprintData.incognito'', operator = op_eq, cond_value = JBool True\<rparr>],
       er_action = block, riskScoreAdjustment = 50, isActive = True\<rparr>]"

text \<open>The Evaluator's \<^verbatim>\<open>getMerchantRules\<close>: the cached rules, else the sample rules, cached.\<close>

definition getEvaluatorRules :: "EvaluatorState \<Rightarrow> string \<Rightarrow> EvalRule list \<times> EvaluatorState" where
  "getEvaluatorRules st mid =
     (let cacheKey = ''merchant:'' @ mid @ '':rules'' in
      if \<not> ev_redisClient st then ([], st)
      else (case rulesCache st cacheKey of
              Some (cachedRules, t) \<Rightarrow> (cachedRules, st)
            | None \<Rightarrow>
                (sampleRules mid,
                 st\<lparr>rulesCache := (rulesCache st)(cacheKey \<mapsto> (sampleRules mid, 300))\<rparr>)))"

section \<open>Evaluator: enrichment\<close>

definition merchantSessionKey :: "EnrichedEvent \<Rightarrow> string" where
  "merchantSessionKey e = ''velocity:merchant:'' @ merchantId e @ '':sessions''"

definition ipSessionKey :: "EnrichedEvent \<Rightarrow> string" where
  "ipSessionKey e = ''velocity:ip:'' @ ipAddress e @ '':sessions''"

definition deviceKey :: "EnrichedEvent \<Rightarrow> string" where
  "deviceKey e = ''velocity:device:'' @ visitorId (fingerprintData e) @ '':sessions''"

definition lastSeenKey :: "EnrichedEvent \<Rightarrow> string" where
  "lastSeenKey e = ''velocity:device:'' @ visitorId (fingerprintData e) @ '':lastSeen''"

definition ttl24h :: nat where
  "ttl24h = 24 * 60 * 60"

text \<open>One counter: the increment, and the expiry when the count it returns is 1.\<close>

definition countHit :: "EvaluatorState \<Rightarrow> string \<Rightarrow> error + int \<times> EvaluatorState" where
  "countHit st key =
     (case incrRedisValue st key of
        Inl e \<Rightarrow> Inl e
      | Inr (n, st1) \<Rightarrow>
          if n = 1 then (case setRedisValue st1 key 1 ttl24h of
                           Inl e \<Rightarrow> Inl e
                         | Inr st2 \<Rightarrow> Inr (n, st2))
          else Inr (n, st1))"

definition getVelocityData_try ::
  "int \<Rightarrow> EvaluatorState \<Rightarrow> EnrichedEvent \<Rightarrow> error + VelocityData \<times> EvaluatorState" where
  "getVelocityData_try now st e =
     (case countHit st (merchantSessionKey e) of
        Inl err \<Rightarrow> Inl err
      | Inr (sessionCount, st1) \<Rightarrow>
     (case countHit st1 (ipSessionKey e) of
        Inl err \<Rightarrow> Inl err
      | Inr (ipSessionCount, st2) \<Rightarrow>
     (case countHit st2 (deviceKey e) of
        Inl err \<Rightarrow> Inl err
      | Inr (deviceSessionCount, st3) \<Rightarrow>
     (case getRedisValue st3 (lastSeenKey e) of
        Inl err \<Rightarrow> Inl err
      | Inr lastSeen \<Rightarrow>
     (case setRedisValue st3 (lastSeenKey e) now ttl24h of
        Inl err \<Rightarrow> Inl err
      | Inr st4 \<Rightarrow>
          Inr (\<lparr>sessionCount24h = Some sessionCount,
                ipSessionCount24h = Some ipSessionCount,
                deviceSessionCount24h = Some deviceSessionCount,
                lastSeenTimestamp = lastSeen\<rparr>, st4))))))"

text \<open>
  \<^verbatim>\<open>getVelocityData\<close>: on an error the \<^verbatim>\<open>catch\<close> returns the empty object. The one error of
  the model, a client that is not initialised, comes before any write.
\<close>

definition getVelocityData :: "int \<Rightarrow> EvaluatorState \<Rightarrow> EnrichedEvent \<Rightarrow> VelocityData \<times> EvaluatorState" where
  "getVelocityData now st e =
     (case getVelocityData_try now st e of
        Inl err \<Rightarrow>
          (\<lparr>sessionCount24h = None, ipSessionCount24h = None,
            deviceSessionCount24h = None, lastSeenTimestamp = None\<rparr>, st)
      | Inr r \<Rightarrow> r)"

definition anonymizeIp :: "string \<Rightarrow> string" where
  "anonymizeIp ip =
     (if CHR '':'' \<in> set ip
      then join_with '':'' (take 3 (split_on CHR '':'' ip) @ [''0000'', ''0000'', ''0000'', ''0000'', ''0000''])
      else join_with ''.'' (take 3 (split_on CHR ''.'' ip) @ [''0'']))"

text \<open>\<^verbatim>\<open>enrichData\<close>; \<open>lookupIp\<close> is the answer of the GeoIP database.\<close>

definition enrichData ::
  "(string \<Rightarrow> GeoData) \<Rightarrow> int \<Rightarrow> EvaluatorState \<Rightarrow> EnrichedEvent \<Rightarrow> EnrichedEvent \<times> EvaluatorState" where
  "enrichData lookupIp now st event =
     (let (merchantSettings, st1) = getMerchantSettings st (merchantId event);
          event1 = (if ipAnonymization merchantSettings
                    then event\<lparr>anonymizedIp := Some (anonymizeIp (ipAddress event))\<rparr> else event);
          event2 = event1\<lparr>geoData := Some (lookupIp (ipAddress event))\<rparr>;
          (velocity, st2) = getVelocityData now st1 event2
      in (event2\<lparr>velocityData := Some velocity\<rparr>, st2))"

section \<open>Evaluator: risk score\<close>

text \<open>The running score and the risk factors pushed so far.\<close>

type_synonym scoring = "real \<times> string list"

definition addRisk :: "real \<Rightarrow> string \<Rightarrow> scoring \<Rightarrow> scoring" where
  "addRisk n tag a = (fst a + n, snd a @ [tag])"

definition scoreConfidence :: "DeviceData \<Rightarrow> scoring \<Rightarrow> scoring" where
  "scoreConfidence fp a =
     (case confidence fp of
        None \<Rightarrow> a
      | Some c \<Rightarrow>
          if c < 3 / 10 then addRisk 30 ''low_device_confidence'' a
          else if c < 7 / 10 then addRisk 10 ''medium_device_confidence'' a
          else a)"

definition scoreIncognito :: "DeviceData \<Rightarrow> scoring \<Rightarrow> scoring" where
  "scoreIncognito fp a = (if incognito fp then addRisk 15 ''incognito_mode'' a else a)"

definition highRiskCountries :: "string list" where
  "highRiskCountries = [''RU'', ''NG'', ''BR'', ''VN'']"

definition eventCountry :: "EnrichedEvent \<Rightarrow> string option" where
  "eventCountry e = (case geoData e of None \<Rightarrow> None | Some g \<Rightarrow> country g)"

definition scoreLocation :: "EnrichedEvent \<Rightarrow> scoring \<Rightarrow> scoring" where
  "scoreLocation e a =
     (case eventCountry e of
        None \<Rightarrow> a
      | Some c \<Rightarrow>
          if c \<noteq> [] \<and> c \<in> set highRiskCountries then addRisk 20 ''high_risk_country'' a else a)"

definition countAbove :: "int option \<Rightarrow> int \<Rightarrow> bool" where
  "countAbove n limit = (case n of None \<Rightarrow> False | Some k \<Rightarrow> k \<noteq> 0 \<and> k > limit)"

definition scoreVelocity :: "EnrichedEvent \<Rightarrow> scoring \<Rightarrow> scoring" where
  "scoreVelocity e a =
     (case velocityData e of
        None \<Rightarrow> a
      | Some v \<Rightarrow>
          (let a1 = (if countAbove (sessionCount24h v) 10 then addRisk 25 ''high_session_velocity'' a else a)
           in if countAbove (ipSessionCount24h v) 20 then addRisk 30 ''high_ip_velocity'' a1 else a1))"

fun scoreRules :: "js_builtins \<Rightarrow> EvalRule list \<Rightarrow> EnrichedEvent \<Rightarrow> scoring \<Rightarrow> scoring" where
  "scoreRules B [] e a = a"
| "scoreRules B (rule # rules) e a =
     scoreRules B rules e
       (if isActive rule \<and> evaluateRule B rule e
        then addRisk (riskScoreAdjustment rule) (''rule_'' @ er_id rule) a else a)"

record EvalDraws =
  ed_id :: string
  ed_evaluationId :: string
  ed_now :: int

definition eventEvaluationId :: "EnrichedEvent \<Rightarrow> EvalDraws \<Rightarrow> string" where
  "eventEvaluationId e D =
     (case evaluationId e of
        None \<Rightarrow> ed_evaluationId D
      | Some i \<Rightarrow> if i = [] then ed_evaluationId D else i)"

text \<open>The risk score object that the \<^verbatim>\<open>try\<close> block builds before it publishes it.\<close>

definition computeRiskScore ::
  "js_builtins \<Rightarrow> EvalDraws \<Rightarrow> MerchantSettings \<Rightarrow> EvalRule list \<Rightarrow> EnrichedEvent \<Rightarrow> RiskScore" where
  "computeRiskScore B D merchantSettings rules e =
     (let a = scoreRules B rules e
                (scoreVelocity e
                  (scoreLocation e
                    (scoreIncognito (fingerprintData e)
                      (scoreConfidence (fingerprintData e) (0, [])))));
          s = max 0 (min 100 (fst a))
      in \<lparr>rs_id = ed_id D,
          rs_evaluationId = eventEvaluationId e D,
          rs_sessionId = sessionId e,
          rs_merchantId = merchantId e,
          rs_visitorId = visitorId (fingerprintData e),
          score = s,
          isFraud = (s \<ge> ms_riskThreshold merchantSettings),
          riskFactors = snd a,
          rs_timestamp = ed_now D\<rparr>)"

definition fallbackRiskScore :: "EvalDraws \<Rightarrow> EnrichedEvent \<Rightarrow> RiskScore" where
  "fallbackRiskScore D e =
     \<lparr>rs_id = ed_id D,
      rs_evaluationId = eventEvaluationId e D,
      rs_sessionId = sessionId e,
      rs_merchantId = merchantId e,
      rs_visitorId = visitorId (fingerprintData e),
      score = 0,
      isFraud = False,
      riskFactors = [''calculation_error''],
      rs_timestamp = ed_now D\<rparr>"

text \<open>
  The \<^verbatim>\<open>try\<close> block of \<^verbatim>\<open>calculateRiskScore\<close>. The two lookups catch their own errors, the
  scoring itself raises nothing on a typed event, so the block fails where the producer
  rejects; the state it leaves behind is the one after the lookups.
\<close>

definition calculateRiskScore_try ::
  "js_builtins \<Rightarrow> EvalDraws \<Rightarrow> EvaluatorState \<Rightarrow> EnrichedEvent \<Rightarrow> error \<times> EvaluatorState + RiskScore \<times> EvaluatorState" where
  "calculateRiskScore_try B D st e =
     (let (merchantSettings, st1) = getMerchantSettings st (merchantId e);
          (rules, st2) = getEvaluatorRules st1 (merchantId e);
          riskScore' = computeRiskScore B D merchantSettings rules e
      in (case produceEvent st2 riskScore' of
            Inl err \<Rightarrow> Inl (err, st2)
          | Inr st3 \<Rightarrow> Inr (riskScore', st3)))"

text \<open>\<^verbatim>\<open>calculateRiskScore\<close>; \<open>D'\<close> is what the \<^verbatim>\<open>catch\<close> block draws.\<close>

definition calculateRiskScore ::
  "js_builtins \<Rightarrow> EvalDraws \<Rightarrow> EvalDraws \<Rightarrow> EvaluatorState \<Rightarrow> EnrichedEvent \<Rightarrow> RiskScore \<times> EvaluatorState" where
  "calculateRiskScore B D D' st e =
     (case calculateRiskScore_try B D st e of
        Inl (err, st') \<Rightarrow> (fallbackRiskScore D' e, st')
      | Inr r \<Rightarrow> r)"

section \<open>Properties: auxiliary notions and sample data\<close>

text \<open>A rule that the rule step of the Decisioner would take: enabled, all conditions matching.\<close>

definition enabledMatches :: "js_builtins \<Rightarrow> RiskScore \<Rightarrow> Rule \<Rightarrow> bool" where
  "enabledMatches B rs r = (isEnabled r \<and> matchesRule B rs r)"

definition noRuleMatches :: "js_builtins \<Rightarrow> RiskScore \<Rightarrow> MerchantRules \<Rightarrow> bool" where
  "noRuleMatches B rs mr =
     (case customRules mr of
        None \<Rightarrow> True
      | Some rules \<Rightarrow> \<not> list_ex (enabledMatches B rs) rules)"

text \<open>
  The additive model as the specification words it: the list of the increments that apply
  to an event, each with its risk-factor tag, in the order in which the factors are pushed.
\<close>

definition holds :: "'a option \<Rightarrow> ('a \<Rightarrow> bool) \<Rightarrow> bool" where
  "holds v P = (case v of None \<Rightarrow> False | Some x \<Rightarrow> P x)"

definition sessionVelocity :: "EnrichedEvent \<Rightarrow> int option" where
  "sessionVelocity e = (case velocityData e of None \<Rightarrow> None | Some v \<Rightarrow> sessionCount24h v)"

definition ipVelocity :: "EnrichedEvent \<Rightarrow> int option" where
  "ipVelocity e = (case velocityData e of None \<Rightarrow> None | Some v \<Rightarrow> ipSessionCount24h v)"

definition when_term :: "bool \<Rightarrow> real \<Rightarrow> string \<Rightarrow> (real \<times> string) list" where
  "when_term b n tag = (if b then [(n, tag)] else [])"

definition spec_contributions :: "js_builtins \<Rightarrow> EvalRule list \<Rightarrow> EnrichedEvent \<Rightarrow> (real \<times> string) list" where
  "spec_contributions B rules e =
     when_term (holds (confidence (fingerprintData e)) (\<lambda>c. c < 3 / 10)) 30 ''low_device_confidence'' @
     when_term (holds (confidence (fingerprintData e)) (\<lambda>c. 3 / 10 \<le> c \<and> c < 7 / 10)) 10 ''medium_device_confidence'' @
     when_term (incognito (fingerprintData e)) 15 ''incognito_mode'' @
     when_term (holds (eventCountry e) (\<lambda>c. c \<in> set highRiskCountries)) 20 ''high_risk_country'' @
     when_term (holds (sessionVelocity e) (\<lambda>n. n > 10)) 25 ''high_session_velocity'' @
     when_term (holds (ipVelocity e) (\<lambda>n. n > 20)) 30 ''high_ip_velocity'' @
     map (\<lambda>r. (riskScoreAdjustment r, ''rule_'' @ er_id r))
       (filter (\<lambda>r. isActive r \<and> evaluateRule B r e) rules)"

text \<open>
  A velocity counter after one hit: the count goes up by one, and the key gets the
  lifetime of 24 hours exactly when the new count is 1.
\<close>

fun bumped :: "(int \<times> nat option) option \<Rightarrow> (int \<times> nat option) option" where
  "bumped None = Some (1, Some ttl24h)"
| "bumped (Some (n, t)) = Some (n + 1, if n + 1 = 1 then Some ttl24h else t)"

definition counterKeys :: "EnrichedEvent \<Rightarrow> string list" where
  "counterKeys e = [merchantSessionKey e, ipSessionKey e, deviceKey e]"

text \<open>The batches for which one outcome of \<^verbatim>\<open>consume\<close> leads to a commit.\<close>

fun committable :: "ConsumeOutcome \<Rightarrow> KafkaMessage list list" where
  "committable (ConsumeMessages ms) = (if ms \<noteq> [] then [ms] else [])"
| "committable ConsumeError = []"
| "committable ConsumeThrows = []"

text \<open>
  Concrete inputs for the instances below. The fields of \<open>sample_builtins\<close> are
  placeholders: no instance below formats a number, converts a string to one or reads a
  property through a prototype.
\<close>

definition sample_builtins :: js_builtins where
  "sample_builtins =
     \<lparr>numberToString = (\<lambda>x. ''?''), stringToNumber = (\<lambda>s. None),
      inheritedProperty = (\<lambda>x k. Undefined), foreignProperty = (\<lambda>r k. Undefined)\<rparr>"

definition sample_score :: RiskScore where
  "sample_score =
     \<lparr>rs_id = ''risk-1'', rs_evaluationId = ''eval-1'', rs_sessionId = ''session-1'',
      rs_merchantId = ''merchant-1'', rs_visitorId = ''visitor-1'', score = 60, isFraud = False,
      riskFactors = [''high_risk_country'', ''incognito_mode''], rs_timestamp = 0\<rparr>"

definition factor_rule :: "string \<Rightarrow> string \<Rightarrow> Decision \<Rightarrow> real \<Rightarrow> bool \<Rightarrow> Rule" where
  "factor_rule i tag a p en =
     \<lparr>rule_id = i, rule_name = i, description = None,
      conditions = [\<lparr>field = ''riskFactors'', operator = op_contains, cond_value = JStr tag\<rparr>],
      action = a, priority = p, isEnabled = en\<rparr>"

definition sample_rules :: "Rule list" where
  "sample_rules =
     [factor_rule ''a'' ''incognito_mode'' approve 1 True,
      factor_rule ''b'' ''high_risk_country'' reject 200 False,
      factor_rule ''c'' ''high_risk_country'' review 100 True,
      factor_rule ''d'' ''incognito_mode'' reject 100 True]"

definition sample_merchant :: "Rule list option \<Rightarrow> real \<Rightarrow> real \<Rightarrow> bool \<Rightarrow> MerchantRules" where
  "sample_merchant rules t h ar =
     \<lparr>mr_merchantId = ''merchant-1'', riskThreshold = t, highRiskThreshold = h,
      automaticReject = ar, manualReviewThreshold = None, customRules = rules, updatedAt = 0\<rparr>"

definition decisioner_with :: "(string \<rightharpoonup> MerchantRules) \<Rightarrow> bool \<Rightarrow> DecisionerState" where
  "decisioner_with store conn =
     \<lparr>redisClient = True, rulesStore = store, decisionStore = Map.empty,
      producerConnected = conn, published = [], errorLog = []\<rparr>"

definition missing_field_condition :: "Operator \<Rightarrow> RuleCondition" where
  "missing_field_condition opr = \<lparr>field = ''device.trust'', operator = opr, cond_value = JStr ''x''\<rparr>"

definition factors_condition :: "Operator \<Rightarrow> RuleCondition" where
  "factors_condition opr = \<lparr>field = ''riskFactors'', operator = opr, cond_value = JStr ''incognito_mode''\<rparr>"

definition sample_device :: "real option \<Rightarrow> bool \<Rightarrow> DeviceData" where
  "sample_device c inc =
     \<lparr>visitorId = ''visitor-1'', requestId = ''req-1'', incognito = inc, browserName = ''Firefox'',
      deviceType = ''desktop'', os = ''Linux'', confidence = c, signals = None\<rparr>"

definition sample_geo :: "string \<Rightarrow> GeoData" where
  "sample_geo c =
     \<lparr>country = Some c, city = None, continent = None, latitude = None, longitude = None,
      timezone = None, postalCode = None, isp = None, asn = None\<rparr>"

definition sample_event :: "string \<Rightarrow> DeviceData \<Rightarrow> GeoData option \<Rightarrow> VelocityData option \<Rightarrow> EnrichedEvent" where
  "sample_event sid d g v =
     \<lparr>sessionId = sid, merchantId = ''merchant-1'', fingerprintData = d, pageData = None,
      userAction = None, ev_timestamp = 0, ipAddress = ''203.0.113.7'', anonymizedIp = None,
      geoData = g, velocityData = v, ev_riskFactors = None, ev_riskScore = None,
      ev_isFraud = None, evaluationId = None, requiresCaptcha = None\<rparr>"

definition evaluator_with :: "bool \<Rightarrow> bool \<Rightarrow> EvaluatorState" where
  "evaluator_with client conn =
     \<lparr>ev_redisClient = client, settingsCache = Map.empty, rulesCache = Map.empty,
      velocityStore = Map.empty, ev_producerConnected = conn, ev_published = []\<rparr>"

definition sample_draws :: "string \<Rightarrow> EvalDraws" where
  "sample_draws i = \<lparr>ed_id = i, ed_evaluationId = ''eval-'' @ i, ed_now = 0\<rparr>"

definition risky_event :: EnrichedEvent where
  "risky_event = sample_event ''session-1'' (sample_device (Some (2 / 10)) True) (Some (sample_geo ''RU'')) None"

definition first_event :: "string \<Rightarrow> EnrichedEvent" where
  "first_event sid = sample_event sid (sample_device None False) None None"

definition sample_clock :: Draws where
  "sample_clock = \<lparr>dateNow = (\<lambda>n. 0), uuidv4 = (\<lambda>n. ''decision-1'')\<rparr>"

definition sample_message :: KafkaMessage where
  "sample_message = \<lparr>msg_offset = 0, msg_value = Some sample_score\<rparr>"

definition consumer_with :: "DecisionerState \<Rightarrow> ConsumerState" where
  "consumer_with st =
     \<lparr>isRunning = True, hasConsumer = True, service = st, committedBatches = [], pollTimer = None\<rparr>"

definition factors_event :: EnrichedEvent where
  "factors_event =
     (sample_event ''session-1'' (sample_device None False) None None)
       \<lparr>ev_riskFactors := Some [''high_risk_country'', ''incognito_mode'']\<rparr>"

definition factors_eval_rule :: EvalRule where
  "factors_eval_rule =
     \<lparr>er_id = ''7'', er_merchantId = ''merchant-1'', er_name = ''Incognito factor'',
      er_description = None, er_conditions = [factors_condition op_contains],
      er_action = flag, riskScoreAdjustment = 10, isActive = True\<rparr>"

section \<open>Risk level of a decision\<close>

lemma createDecision_riskLevel:
  "riskLevel (createDecision now rs decisionId d r) = getRiskLevel (score rs)"
  by (simp add: createDecision_def)

lemma getRiskLevel_of_int: "getRiskLevel (real_of_int n) = (if n \<ge> 1 then critical else low)"
proof (cases "n \<ge> 1")
  case True
  then have "real_of_int n \<ge> 1" by simp
  then show ?thesis using True by (simp add: getRiskLevel_def)
next
  case False
  then have "real_of_int n \<le> 0" by simp
  then show ?thesis using False by (simp add: getRiskLevel_def)
qed

text \<open>
  C1. The bands of \<^verbatim>\<open>getRiskLevel\<close> lie at 0.9, 0.7 and 0.4, while the scores that the
  Evaluator publishes are integers between 0 and 100. On those the bands of the claim are
  not the ones computed: each of the boundary scores 39, 40, 69, 70, 89 and 90 is
  \<open>critical\<close>, as is every score from 1 on; only 0 is \<open>low\<close>, and \<open>medium\<close> and \<open>high\<close> never occur.
\<close>

theorem getRiskLevel_percent_scores:
  "getRiskLevel 39 = critical \<and> getRiskLevel 40 = critical \<and> getRiskLevel 69 = critical \<and>
   getRiskLevel 70 = critical \<and> getRiskLevel 89 = critical \<and> getRiskLevel 90 = critical \<and>
   getRiskLevel 1 = critical \<and> getRiskLevel 0 = low \<and>
   riskLevel (createDecision 0 (sample_score\<lparr>score := 40\<rparr>) ''d1'' approve (Inr [])) = critical"
  by (simp add: getRiskLevel_def createDecision_def)

section \<open>Fallback chain of the merchant rules\<close>

text \<open>
  C2, as amended. With the Redis client initialised and neither the merchant's record nor
  the \<open>default\<close> record in the store, \<^verbatim>\<open>getMerchantRules\<close> returns a baseline for the requested
  merchant whose two thresholds are the values of \<^verbatim>\<open>config.rules\<close>, with automatic rejection
  on and no custom rules.
\<close>

theorem getMerchantRules_baseline:
  assumes "redisClient st"
    and "rulesStore st (''merchant:'' @ mid @ '':rules'') = None"
    and "rulesStore st ''merchant:default:rules'' = None"
  shows "getMerchantRules cfg now st mid =
     Inr \<lparr>mr_merchantId = mid,
          riskThreshold = cfg_defaultRiskThreshold cfg,
          highRiskThreshold = cfg_highRiskThreshold cfg,
          automaticReject = True,
          manualReviewThreshold = None,
          customRules = None,
          updatedAt = now\<rparr>"
  using assms by (simp add: getMerchantRules_def redis_getMerchantRules_def)

theorem getMerchantRules_baseline_witness:
  "redisClient (decisioner_with Map.empty True) \<and>
   getMerchantRules default_config 0 (decisioner_with Map.empty True) ''m1'' =
     Inr \<lparr>mr_merchantId = ''m1'', riskThreshold = 7 / 10, highRiskThreshold = 9 / 10,
          automaticReject = True, manualReviewThreshold = None, customRules = None, updatedAt = 0\<rparr>"
  using getMerchantRules_baseline [of "decisioner_with Map.empty True" "''m1''" default_config 0]
  by (simp add: decisioner_with_def default_config_def)

text \<open>
  The thresholds of the baseline are not fixed at 70 and 90: with
  \<^verbatim>\<open>DEFAULT_RISK_THRESHOLD=60\<close> and \<^verbatim>\<open>HIGH_RISK_THRESHOLD=85\<close> in the environment an unknown
  merchant gets 60 and 85.
\<close>

theorem getMerchantRules_baseline_counterexample:
  "map_sum id (\<lambda>mr. (riskThreshold mr, highRiskThreshold mr))
     (getMerchantRules \<lparr>cfg_defaultRiskThreshold = 60, cfg_highRiskThreshold = 85\<rparr> 0
        (decisioner_with Map.empty True) ''m1'') = Inr (60, 85)"
  by (simp add: getMerchantRules_def redis_getMerchantRules_def decisioner_with_def)

section \<open>Custom rules: the first match in priority order\<close>

lemma hd_insort_key:
  "hd (insort_key f x ys) = (if ys = [] \<or> f x \<le> f (hd ys) then x else hd ys)"
  by (cases ys) auto

lemma sort_key_Nil_iff: "sort_key f xs = [] \<longleftrightarrow> xs = []"
  by (metis length_sort length_0_conv)

lemma hd_sort_key_split:
  fixes f :: "'a \<Rightarrow> real"
  assumes "xs \<noteq> []"
  shows "\<exists>pre r post. xs = pre @ r # post \<and> hd (sort_key f xs) = r \<and>
           (\<forall>x\<in>set pre. f r < f x) \<and> (\<forall>x\<in>set post. f r \<le> f x)"
  using assms
proof (induction xs)
  case Nil
  then show ?case by simp
next
  case (Cons a xs)
  show ?case
  proof (cases "xs = []")
    case True
    then have "a # xs = [] @ a # [] \<and> hd (sort_key f (a # xs)) = a" by simp
    then show ?thesis by (metis empty_iff list.set(1))
  next
    case False
    with Cons.IH obtain pre r post where
      xs: "xs = pre @ r # post" and h: "hd (sort_key f xs) = r"
      and pre: "\<forall>x\<in>set pre. f r < f x" and post: "\<forall>x\<in>set post. f r \<le> f x"
      by blast
    have ne: "sort_key f xs \<noteq> []" using False by (simp add: sort_key_Nil_iff)
    have hd: "hd (sort_key f (a # xs)) = (if f a \<le> f r then a else r)"
      using ne h by (simp add: hd_insort_key)
    show ?thesis
    proof (cases "f a \<le> f r")
      case True
      have all: "\<forall>x\<in>set xs. f a \<le> f x"
        using True pre post xs by fastforce
      have "a # xs = [] @ a # xs" by simp
      moreover have "hd (sort_key f (a # xs)) = a" using hd True by simp
      ultimately show ?thesis using all by (metis empty_iff list.set(1))
    next
      case False
      then have lt: "f r < f a" by simp
      have "a # xs = (a # pre) @ r # post" using xs by simp
      moreover have "hd (sort_key f (a # xs)) = r" using hd False by simp
      moreover have "\<forall>x\<in>set (a # pre). f r < f x" using lt pre by simp
      ultimately show ?thesis using post by blast
    qed
  qed
qed

lemma find_hd_filter: "find P xs = (case filter P xs of [] \<Rightarrow> None | y # ys \<Rightarrow> Some y)"
  by (induction xs) auto

lemma filter_eq_appendD:
  "filter P xs = as @ bs \<Longrightarrow> \<exists>us vs. xs = us @ vs \<and> as = filter P us \<and> bs = filter P vs"
proof (induction as arbitrary: xs)
  case Nil
  then have "xs = [] @ xs \<and> [] = filter P [] \<and> bs = filter P xs" by simp
  then show ?case by blast
next
  case (Cons a as)
  then have "filter P xs = a # (as @ bs)" by simp
  then obtain u0 v0 where xs: "xs = u0 @ a # v0" and u0: "\<forall>u\<in>set u0. \<not> P u"
    and Pa: "P a" and rest: "as @ bs = filter P v0"
    by (auto simp: filter_eq_Cons_iff)
  from Cons.IH [OF rest [symmetric]] obtain us vs where
    v0: "v0 = us @ vs" and as: "as = filter P us" and bs: "bs = filter P vs" by blast
  have "xs = (u0 @ a # us) @ vs" using xs v0 by simp
  moreover have "a # as = filter P (u0 @ a # us)" using u0 Pa as by simp
  ultimately show ?case using bs by blast
qed

lemma find_sort_key_split:
  fixes f :: "'a \<Rightarrow> real"
  assumes "\<exists>x\<in>set xs. P x"
  shows "\<exists>pre r post. xs = pre @ r # post \<and> find P (sort_key f xs) = Some r \<and> P r \<and>
           (\<forall>x\<in>set pre. P x \<longrightarrow> f r < f x) \<and> (\<forall>x\<in>set post. P x \<longrightarrow> f r \<le> f x)"
proof -
  have ne: "filter P xs \<noteq> []" using assms by (simp add: filter_empty_conv)
  from hd_sort_key_split [OF ne, of f] obtain pre r post where
    fx: "filter P xs = pre @ r # post" and h: "hd (sort_key f (filter P xs)) = r"
    and pre: "\<forall>x\<in>set pre. f r < f x" and post: "\<forall>x\<in>set post. f r \<le> f x"
    by blast
  have sne: "sort_key f (filter P xs) \<noteq> []" using ne by (simp add: sort_key_Nil_iff)
  have "find P (sort_key f xs) = Some (hd (filter P (sort_key f xs)))"
    using sne by (simp add: find_hd_filter filter_sort split: list.splits)
  then have fnd: "find P (sort_key f xs) = Some r" using h by (simp add: filter_sort)
  from fx obtain us vs where
    xs1: "xs = us @ vs" and us: "pre = filter P us" and vs: "r # post = filter P vs"
    using filter_eq_appendD by blast
  from vs [symmetric] obtain us' vs' where
    vs1: "vs = us' @ r # vs'" and us': "\<forall>u\<in>set us'. \<not> P u" and Pr: "P r" and vs': "post = filter P vs'"
    by (auto simp: filter_eq_Cons_iff)
  have "xs = (us @ us') @ r # vs'" using xs1 vs1 by simp
  moreover have "\<forall>x\<in>set (us @ us'). P x \<longrightarrow> f r < f x" using pre us us' by auto
  moreover have "\<forall>x\<in>set vs'. P x \<longrightarrow> f r \<le> f x" using post vs' by auto
  ultimately show ?thesis using fnd Pr by blast
qed

lemma find_sorted_filtered:
  "find P (sort_key f (filter Q xs)) = find (\<lambda>x. Q x \<and> P x) (sort_key f xs)"
  by (simp add: find_hd_filter filter_sort)

lemma applyCustomRules_find:
  "customRules mr = Some rules \<Longrightarrow>
   applyCustomRules B rs mr =
     map_option (\<lambda>r. (action r, ruleReason r))
       (find (enabledMatches B rs) (sort_key (\<lambda>r. - priority r) rules))"
proof -
  have fn: "enabledMatches B rs = (\<lambda>x. isEnabled x \<and> matchesRule B rs x)"
    by (rule ext) (simp add: enabledMatches_def)
  assume "customRules mr = Some rules"
  then show ?thesis
    by (cases "rules = []")
       (auto simp: applyCustomRules_def sortByPriority_def find_sorted_filtered fn
             split: option.splits)
qed

lemma applyCustomRules_None_iff:
  "applyCustomRules B rs mr = None \<longleftrightarrow> noRuleMatches B rs mr"
proof (cases "customRules mr")
  case None
  then show ?thesis by (simp add: applyCustomRules_def noRuleMatches_def)
next
  case (Some rules)
  then show ?thesis
    by (auto simp: applyCustomRules_find noRuleMatches_def find_None_iff list_ex_iff)
qed

text \<open>
  C4. When some enabled rule of the merchant matches the risk score, the rule step picks
  a rule \<open>r\<close> of the list that is enabled and matches, such that every enabled matching
  rule before it in the list has a strictly lower priority and every enabled matching
  rule after it has a priority that is not higher: the highest priority wins, and among
  equal priorities the rule that comes first in the list. Disabled rules play no part. The
  decision is the action of \<open>r\<close> and its reasoning is the one sentence naming \<open>r\<close>; no
  threshold and no threshold sentence enters.
\<close>

theorem applyCustomRules_first_match:
  assumes rules: "customRules mr = Some rules"
    and some: "list_ex (enabledMatches B rs) rules"
  shows "\<exists>pre r post. rules = pre @ r # post \<and> isEnabled r \<and> matchesRule B rs r \<and>
           (\<forall>x\<in>set pre. isEnabled x \<and> matchesRule B rs x \<longrightarrow> priority x < priority r) \<and>
           (\<forall>x\<in>set post. isEnabled x \<and> matchesRule B rs x \<longrightarrow> priority x \<le> priority r) \<and>
           applyCustomRules B rs mr = Some (action r, ruleReason r) \<and>
           decision (decideWith B now rs decisionId mr) = action r \<and>
           reasoning (decideWith B now rs decisionId mr) = [ruleReason r]"
proof -
  from some have "\<exists>x\<in>set rules. enabledMatches B rs x" by (simp add: list_ex_iff)
  from find_sort_key_split [OF this, of "\<lambda>r. - priority r"] obtain pre r post where
    split: "rules = pre @ r # post"
    and fnd: "find (enabledMatches B rs) (sort_key (\<lambda>r. - priority r) rules) = Some r"
    and r: "enabledMatches B rs r"
    and pre: "\<forall>x\<in>set pre. enabledMatches B rs x \<longrightarrow> - priority r < - priority x"
    and post: "\<forall>x\<in>set post. enabledMatches B rs x \<longrightarrow> - priority r \<le> - priority x"
    by blast
  have app: "applyCustomRules B rs mr = Some (action r, ruleReason r)"
    using rules fnd by (simp add: applyCustomRules_find)
  have dec: "decideWith B now rs decisionId mr = createDecision now rs decisionId (action r) (Inl (ruleReason r))"
    using app by (simp add: decideWith_def)
  have "isEnabled r \<and> matchesRule B rs r" using r by (simp add: enabledMatches_def)
  moreover have "\<forall>x\<in>set pre. isEnabled x \<and> matchesRule B rs x \<longrightarrow> priority x < priority r"
    using pre by (simp add: enabledMatches_def)
  moreover have "\<forall>x\<in>set post. isEnabled x \<and> matchesRule B rs x \<longrightarrow> priority x \<le> priority r"
    using post by (simp add: enabledMatches_def)
  moreover have "decision (decideWith B now rs decisionId mr) = action r"
    using dec by (simp add: createDecision_def)
  moreover have "reasoning (decideWith B now rs decisionId mr) = [ruleReason r]"
    using dec by (simp add: createDecision_def)
  ultimately show ?thesis using split app by blast
qed

lemma sample_matches:
  "matchesRule sample_builtins sample_score (factor_rule i ''incognito_mode'' a p en)"
  "matchesRule sample_builtins sample_score (factor_rule i ''high_risk_country'' a p en)"
  by (simp_all add: matchesRule_def matchesCondition_def matchesConditionOf_def matchesOperator_def
        getFieldValueOf_def riskScoreObject_def object_get_def factor_rule_def sample_score_def
        array_includes_def)

lemma sample_enabledMatches:
  "enabledMatches sample_builtins sample_score (factor_rule i ''incognito_mode'' a p en) = en"
  "enabledMatches sample_builtins sample_score (factor_rule i ''high_risk_country'' a p en) = en"
  using sample_matches [of i a p en] by (simp_all add: enabledMatches_def factor_rule_def)

theorem applyCustomRules_first_match_witness:
  "customRules (sample_merchant (Some sample_rules) 70 90 True) = Some sample_rules \<and>
   list_ex (enabledMatches sample_builtins sample_score) sample_rules \<and>
   decision (decideWith sample_builtins 0 sample_score ''d1''
              (sample_merchant (Some sample_rules) 70 90 True)) = review"
proof -
  let ?mr = "sample_merchant (Some sample_rules) 70 90 True"
  have h1: "customRules ?mr = Some sample_rules" by (simp add: sample_merchant_def)
  have h2: "list_ex (enabledMatches sample_builtins sample_score) sample_rules"
    by (simp add: sample_rules_def sample_enabledMatches)
  from applyCustomRules_first_match [OF h1 h2, of 0 "''d1''"] obtain pre r post where
    split: "sample_rules = pre @ r # post"
    and en: "isEnabled r"
    and pre: "\<forall>x\<in>set pre. isEnabled x \<and> matchesRule sample_builtins sample_score x \<longrightarrow> priority x < priority r"
    and post: "\<forall>x\<in>set post. isEnabled x \<and> matchesRule sample_builtins sample_score x \<longrightarrow> priority x \<le> priority r"
    and dec: "decision (decideWith sample_builtins 0 sample_score ''d1'' ?mr) = action r"
    by blast
  let ?a = "factor_rule ''a'' ''incognito_mode'' approve 1 True"
  let ?b = "factor_rule ''b'' ''high_risk_country'' reject 200 False"
  let ?c = "factor_rule ''c'' ''high_risk_country'' review 100 True"
  let ?d = "factor_rule ''d'' ''incognito_mode'' reject 100 True"
  have cases: "(pre = [] \<and> r = ?a \<and> post = [?b, ?c, ?d]) \<or> (pre = [?a] \<and> r = ?b \<and> post = [?c, ?d]) \<or>
        (pre = [?a, ?b] \<and> r = ?c \<and> post = [?d]) \<or> (pre = [?a, ?b, ?c] \<and> r = ?d \<and> post = [])"
    using split by (auto simp: sample_rules_def Cons_eq_append_conv)
  have mc: "matchesRule sample_builtins sample_score ?c" by (rule sample_matches)
  have "r = ?c"
    using cases en pre post mc by (auto simp: factor_rule_def)
  then have "action r = review" by (simp add: factor_rule_def)
  then show ?thesis using h1 h2 dec by simp
qed

section \<open>Threshold fallback\<close>

text \<open>
  C5, as amended. When the merchant's rules are found and no enabled custom rule matches,
  the decision follows the thresholds in this order: at or above the high-risk threshold
  it is \<open>reject\<close> with automatic rejection and \<open>review\<close> without; below the high-risk threshold
  and at or above the risk threshold it is \<open>review\<close>; below both thresholds it is \<open>approve\<close>.
\<close>

theorem threshold_fallback:
  assumes "getMerchantRules cfg now st (rs_merchantId rs) = Inr mr"
    and "noRuleMatches B rs mr"
  shows "\<exists>d. makeDecision B cfg now st rs decisionId = Inr d \<and>
           (score rs \<ge> highRiskThreshold mr \<and> automaticReject mr \<longrightarrow> decision d = reject) \<and>
           (score rs \<ge> highRiskThreshold mr \<and> \<not> automaticReject mr \<longrightarrow> decision d = review) \<and>
           (riskThreshold mr \<le> score rs \<and> score rs < highRiskThreshold mr \<longrightarrow> decision d = review) \<and>
           (score rs < riskThreshold mr \<and> score rs < highRiskThreshold mr \<longrightarrow> decision d = approve)"
proof -
  have "applyCustomRules B rs mr = None" using assms(2) by (simp add: applyCustomRules_None_iff)
  then have "makeDecision B cfg now st rs decisionId =
      Inr (createDecision now rs decisionId (thresholdDecision rs mr) (Inr (thresholdReasoning B rs mr)))"
    using assms(1) by (simp add: makeDecision_def decideWith_def)
  then show ?thesis by (simp add: createDecision_def thresholdDecision_def)
qed

theorem threshold_fallback_witness:
  "map_sum id decision
     (makeDecision sample_builtins default_config 0
        (decisioner_with [''merchant:merchant-1:rules'' \<mapsto> sample_merchant None 50 80 False] True)
        sample_score ''d1'') = Inr review"
proof -
  let ?mr = "sample_merchant None 50 80 False"
  let ?st = "decisioner_with [''merchant:merchant-1:rules'' \<mapsto> ?mr] True"
  have h1: "getMerchantRules default_config 0 ?st (rs_merchantId sample_score) = Inr ?mr"
    by (simp add: getMerchantRules_def redis_getMerchantRules_def decisioner_with_def sample_score_def)
  have h2: "noRuleMatches sample_builtins sample_score ?mr"
    by (simp add: noRuleMatches_def sample_merchant_def)
  from threshold_fallback [OF h1 h2, of "''d1''"] show ?thesis
    by (auto simp: sample_merchant_def sample_score_def)
qed

text \<open>
  A score below the risk threshold is not approved when the high-risk threshold lies
  below it as well: score 60 with thresholds 70 and 50 is rejected.
\<close>

theorem threshold_fallback_counterexample:
  "noRuleMatches sample_builtins sample_score (sample_merchant None 70 50 True) \<and>
   score sample_score < riskThreshold (sample_merchant None 70 50 True) \<and>
   map_sum id decision
     (makeDecision sample_builtins default_config 0
        (decisioner_with [''merchant:merchant-1:rules'' \<mapsto> sample_merchant None 70 50 True] True)
        sample_score ''d1'') = Inr reject"
  by (simp add: noRuleMatches_def sample_merchant_def sample_score_def makeDecision_def
        getMerchantRules_def redis_getMerchantRules_def decisioner_with_def decideWith_def
        applyCustomRules_def createDecision_def thresholdDecision_def)

section \<open>Conditions on an undefined field\<close>

lemma array_includes_undefined: "array_includes ys None = False"
  by (induction ys) (simp_all add: array_includes_def)

lemma matchesOperator_undefined:
  "matchesOperator B opr None v = (opr = op_neq \<or> opr = op_not_contains \<or> opr = op_not_in)"
  by (cases opr) (simp_all add: matchesOperator_def array_includes_undefined split: jsval.splits)

text \<open>
  C6, as amended. When the dot-path of a condition leads to no value in the risk score
  (a segment is missing, or the path continues below \<^verbatim>\<open>null\<close> or a primitive), the
  condition is false for \<open>eq\<close>, \<open>gt\<close>, \<open>gte\<close>, \<open>lt\<close>, \<open>lte\<close>, \<open>contains\<close> and \<open>in\<close>, and true for
  \<open>neq\<close>, \<open>not_contains\<close> and \<open>not_in\<close>.
\<close>

theorem matchesCondition_undefined_field:
  assumes "getFieldValue rs (field c) = None"
  shows "matchesCondition B rs c =
           (operator c = op_neq \<or> operator c = op_not_contains \<or> operator c = op_not_in)"
  using assms
  by (simp add: matchesCondition_def matchesConditionOf_def getFieldValue_def matchesOperator_undefined)

lemma sample_missing_field: "getFieldValue sample_score ''device.trust'' = None"
  by (simp add: getFieldValue_def getFieldValueOf_def riskScoreObject_def object_get_def sample_score_def)

theorem matchesCondition_undefined_field_witness:
  "getFieldValue sample_score (field (missing_field_condition op_contains)) = None \<and>
   \<not> matchesCondition sample_builtins sample_score (missing_field_condition op_contains) \<and>
   matchesCondition sample_builtins sample_score (missing_field_condition op_not_in)"
proof -
  have h1: "getFieldValue sample_score (field (missing_field_condition op_contains)) = None"
    by (simp add: missing_field_condition_def sample_missing_field)
  have h2: "getFieldValue sample_score (field (missing_field_condition op_not_in)) = None"
    by (simp add: missing_field_condition_def sample_missing_field)
  show ?thesis
    using h1 matchesCondition_undefined_field [OF h1, of sample_builtins]
      matchesCondition_undefined_field [OF h2, of sample_builtins]
    by (simp add: missing_field_condition_def)
qed

text \<open>
  \<open>neq\<close> is not among the operators that are false on an undefined field: \<^verbatim>\<open>undefined !== 'x'\<close>
  holds.
\<close>

theorem matchesCondition_undefined_field_counterexample:
  "getFieldValue sample_score (field (missing_field_condition op_neq)) = None \<and>
   matchesCondition sample_builtins sample_score (missing_field_condition op_neq)"
proof -
  have h: "getFieldValue sample_score (field (missing_field_condition op_neq)) = None"
    by (simp add: missing_field_condition_def sample_missing_field)
  then have "matchesCondition sample_builtins sample_score (missing_field_condition op_neq) =
      matchesOperator sample_builtins op_neq None (JStr ''x'')"
    by (simp add: matchesCondition_def matchesConditionOf_def getFieldValue_def
          missing_field_condition_def)
  then show ?thesis using h by (simp add: matchesOperator_def)
qed

section \<open>The two condition evaluators\<close>

text \<open>
  Where the two \<^verbatim>\<open>switch\<close> statements agree on one extracted value: on the six comparisons
  and on \<open>in\<close> always, on \<open>contains\<close> for every field that is no array, on \<open>not_contains\<close> for
  a string field, and on \<open>not_in\<close> when the value of the condition is an array.
\<close>

lemma operators_agree_elsewhere:
  assumes "opr \<in> {op_eq, op_neq, op_gt, op_gte, op_lt, op_lte, op_in, op_other}
           \<or> (opr = op_contains \<and> (\<forall>xs. fv \<noteq> Value (JArr xs)))
           \<or> (opr = op_not_contains \<and> (\<exists>s. fv = Value (JStr s)))
           \<or> (opr = op_not_in \<and> (\<exists>ys. v = JArr ys))"
  shows "evaluateOperator B opr fv v = matchesOperator B opr (as_document fv) v"
proof (cases fv)
  case Undefined
  then show ?thesis using assms
    by (auto simp: evaluateOperator_def matchesOperator_def split: jsval.splits)
next
  case (Value x)
  then show ?thesis using assms
    by (cases x) (auto simp: evaluateOperator_def matchesOperator_def split: jsval.splits)
next
  case (Foreign r)
  then show ?thesis using assms
    by (auto simp: evaluateOperator_def matchesOperator_def split: jsval.splits)
qed

lemma contains_on_array:
  "evaluateOperator B op_contains (Value (JArr xs)) v = False"
  "matchesOperator B op_contains (Some (JArr xs)) v = array_includes xs (Some v)"
  "evaluateOperator B op_not_contains (Value (JArr xs)) v = False"
  "matchesOperator B op_not_contains (Some (JArr xs)) v = (\<not> array_includes xs (Some v))"
  by (simp_all add: evaluateOperator_def matchesOperator_def)

lemma negative_operators_on_undefined:
  "evaluateOperator B op_not_contains Undefined v = False"
  "matchesOperator B op_not_contains None v = True"
  "evaluateOperator B op_not_in Undefined (JStr s) = False"
  "matchesOperator B op_not_in None (JStr s) = True"
  by (simp_all add: evaluateOperator_def matchesOperator_def)

lemma sample_factors_extracted:
  "getFieldValueOf (riskScoreObject sample_score) ''riskFactors'' =
     Some (JArr [JStr ''high_risk_country'', JStr ''incognito_mode''])"
  "getNestedValue B (riskScoreObject sample_score) ''riskFactors'' =
     Value (JArr [JStr ''high_risk_country'', JStr ''incognito_mode''])"
  "getNestedValue B (eventObject factors_event) ''riskFactors'' =
     Value (JArr [JStr ''high_risk_country'', JStr ''incognito_mode''])"
  by (simp_all add: getFieldValueOf_def getNestedValue_def propertyOf_def riskScoreObject_def
        object_get_def sample_score_def factors_event_def sample_event_def sample_device_def
        eventObject_def deviceObject_def opt_field_def)

text \<open>
  C10. The two checks do not return the same boolean on \<open>contains\<close> applied to an
  array-valued field. On the record of a risk score whose risk factors hold
  \<open>incognito_mode\<close>, the condition \<open>riskFactors contains incognito_mode\<close> is true for the
  Decisioner's \<^verbatim>\<open>matchesCondition\<close>, which tests membership, and false for the check inside
  the Evaluator's \<^verbatim>\<open>evaluateRule\<close>, which has the string branch only; the same holds of a
  Decisioner rule and an Evaluator rule with this one condition, on a risk score and an
  event with these risk factors.
\<close>

theorem condition_checks_differ_on_array_field:
  "matchesConditionOf B (riskScoreObject sample_score) (factors_condition op_contains) \<and>
   \<not> evaluateCondition B (riskScoreObject sample_score) (factors_condition op_contains) \<and>
   matchesRule B sample_score (factor_rule ''c'' ''incognito_mode'' review 100 True) \<and>
   \<not> evaluateRule B factors_eval_rule factors_event"
proof -
  have d: "matchesConditionOf B (riskScoreObject sample_score) (factors_condition op_contains)"
    by (simp add: matchesConditionOf_def factors_condition_def sample_factors_extracted
          contains_on_array array_includes_def)
  have e: "\<not> evaluateCondition B (riskScoreObject sample_score) (factors_condition op_contains)"
    by (simp add: evaluateCondition_def factors_condition_def sample_factors_extracted
          contains_on_array)
  have r: "matchesRule B sample_score (factor_rule ''c'' ''incognito_mode'' review 100 True)"
    using d by (simp add: matchesRule_def matchesCondition_def factor_rule_def factors_condition_def)
  have v: "\<not> evaluateRule B factors_eval_rule factors_event"
    by (simp add: evaluateRule_def factors_eval_rule_def evaluateCondition_def factors_condition_def
          sample_factors_extracted contains_on_array)
  show ?thesis using d e r v by simp
qed

section \<open>The additive risk score\<close>

lemma scoreRules_sum:
  "scoreRules B rules e a =
     (fst a + sum_list (map riskScoreAdjustment (filter (\<lambda>r. isActive r \<and> evaluateRule B r e) rules)),
      snd a @ map (\<lambda>r. ''rule_'' @ er_id r) (filter (\<lambda>r. isActive r \<and> evaluateRule B r e) rules))"
  by (induction rules arbitrary: a) (simp_all add: addRisk_def)

lemma signals_sum:
  "scoreVelocity e (scoreLocation e (scoreIncognito (fingerprintData e)
      (scoreConfidence (fingerprintData e) (0, [])))) =
   (sum_list (map fst (spec_contributions B [] e)), map snd (spec_contributions B [] e))"
  by (auto simp: scoreVelocity_def scoreLocation_def scoreIncognito_def scoreConfidence_def
        spec_contributions_def when_term_def holds_def addRisk_def countAbove_def Let_def
        sessionVelocity_def ipVelocity_def highRiskCountries_def
        split: option.splits)

lemma spec_contributions_rules:
  "spec_contributions B rules e =
     spec_contributions B [] e @
     map (\<lambda>r. (riskScoreAdjustment r, ''rule_'' @ er_id r))
       (filter (\<lambda>r. isActive r \<and> evaluateRule B r e) rules)"
  by (simp add: spec_contributions_def)

lemma computeRiskScore_sum:
  "computeRiskScore B D ms rules e =
     \<lparr>rs_id = ed_id D,
      rs_evaluationId = eventEvaluationId e D,
      rs_sessionId = sessionId e,
      rs_merchantId = merchantId e,
      rs_visitorId = visitorId (fingerprintData e),
      score = max 0 (min 100 (sum_list (map fst (spec_contributions B rules e)))),
      isFraud = (max 0 (min 100 (sum_list (map fst (spec_contributions B rules e)))) \<ge> ms_riskThreshold ms),
      riskFactors = map snd (spec_contributions B rules e),
      rs_timestamp = ed_now D\<rparr>"
proof -
  have m: "map (\<lambda>r. fst (riskScoreAdjustment r, ''rule_'' @ er_id r)) = map riskScoreAdjustment"
       "map (\<lambda>r. snd (riskScoreAdjustment r, ''rule_'' @ er_id r)) = map (\<lambda>r. ''rule_'' @ er_id r)"
    by simp_all
  show ?thesis
    unfolding computeRiskScore_def signals_sum [of e B] scoreRules_sum
    by (simp add: spec_contributions_rules [of B rules e] Let_def comp_def)
qed

text \<open>
  C3. When the risk score is computed and published, its score is the sum of the
  increments that apply, clamped to the range from 0 to 100: 30 for a device confidence
  below 0.3, 10 for one from 0.3 to below 0.7, 15 for incognito mode, 20 for a country in
  the high-risk set, 25 for a session velocity above 10, 30 for an IP velocity above 20,
  and the adjustment of every active rule that matches the event. The risk factors are
  the tags of these increments, and the fraud flag says whether the score reaches the
  merchant's risk threshold.
\<close>

theorem calculateRiskScore_additive:
  assumes "ev_producerConnected st"
    and "getMerchantSettings st (merchantId e) = (ms, st1)"
    and "getEvaluatorRules st1 (merchantId e) = (rules, st2)"
  shows "score (fst (calculateRiskScore B D D' st e)) =
           max 0 (min 100 (sum_list (map fst (spec_contributions B rules e)))) \<and>
         riskFactors (fst (calculateRiskScore B D D' st e)) = map snd (spec_contributions B rules e) \<and>
         isFraud (fst (calculateRiskScore B D D' st e)) =
           (score (fst (calculateRiskScore B D D' st e)) \<ge> ms_riskThreshold ms) \<and>
         0 \<le> score (fst (calculateRiskScore B D D' st e)) \<and>
         score (fst (calculateRiskScore B D D' st e)) \<le> 100"
proof -
  have c1: "ev_producerConnected st1"
    using assms(1,2) by (auto simp: getMerchantSettings_def Let_def split: if_splits option.splits)
  have c2: "ev_producerConnected st2"
    using c1 assms(3) by (auto simp: getEvaluatorRules_def Let_def split: if_splits option.splits)
  have "calculateRiskScore B D D' st e =
      (computeRiskScore B D ms rules e,
       st2\<lparr>ev_published := ev_published st2 @ [computeRiskScore B D ms rules e]\<rparr>)"
    using assms(2,3) c2
    by (simp add: calculateRiskScore_def calculateRiskScore_try_def produceEvent_def Let_def)
  then show ?thesis by (simp add: computeRiskScore_sum)
qed

lemma risky_event_rules:
  "evaluateRule B (sampleRules m ! 0) risky_event" "evaluateRule B (sampleRules m ! 1) risky_event"
  by (simp_all add: sampleRules_def evaluateRule_def evaluateCondition_def evaluateOperator_def
        getNestedValue_def propertyOf_def risky_event_def sample_event_def sample_device_def sample_geo_def
        eventObject_def deviceObject_def geoObject_def opt_field_def object_get_def array_includes_def)

lemma risky_event_contributions:
  "spec_contributions B (sampleRules m) risky_event =
     [(30, ''low_device_confidence''), (15, ''incognito_mode''), (20, ''high_risk_country''),
      (30, ''rule_1''), (50, ''rule_2'')]"
proof -
  have r: "filter (\<lambda>r. isActive r \<and> evaluateRule B r risky_event) (sampleRules m) = sampleRules m"
    using risky_event_rules [of B m] by (simp add: sampleRules_def)
  have "spec_contributions B [] risky_event =
      [(30, ''low_device_confidence''), (15, ''incognito_mode''), (20, ''high_risk_country'')]"
    by (simp add: spec_contributions_def when_term_def holds_def risky_event_def sample_event_def
          sample_device_def sample_geo_def eventCountry_def sessionVelocity_def ipVelocity_def
          highRiskCountries_def)
  then show ?thesis
    unfolding spec_contributions_rules [of B "sampleRules m" risky_event] r
    by (simp add: sampleRules_def)
qed

theorem calculateRiskScore_additive_witness:
  "ev_producerConnected (evaluator_with True True) \<and>
   score (fst (calculateRiskScore sample_builtins (sample_draws ''1'') (sample_draws ''2'')
                 (evaluator_with True True) risky_event)) = 100 \<and>
   riskFactors (fst (calculateRiskScore sample_builtins (sample_draws ''1'') (sample_draws ''2'')
                 (evaluator_with True True) risky_event)) =
     [''low_device_confidence'', ''incognito_mode'', ''high_risk_country'', ''rule_1'', ''rule_2''] \<and>
   isFraud (fst (calculateRiskScore sample_builtins (sample_draws ''1'') (sample_draws ''2'')
                 (evaluator_with True True) risky_event))"
proof -
  let ?st = "evaluator_with True True"
  let ?m = "merchantId risky_event"
  have h1: "ev_producerConnected ?st" by (simp add: evaluator_with_def)
  have ms: "fst (getMerchantSettings ?st ?m) = DEFAULT_MERCHANT_SETTINGS"
    by (simp add: getMerchantSettings_def evaluator_with_def Let_def)
  have h2: "getMerchantSettings ?st ?m = (DEFAULT_MERCHANT_SETTINGS, snd (getMerchantSettings ?st ?m))"
    using ms by (metis prod.collapse)
  have rl: "fst (getEvaluatorRules (snd (getMerchantSettings ?st ?m)) ?m) = sampleRules ?m"
    by (simp add: getEvaluatorRules_def getMerchantSettings_def evaluator_with_def Let_def)
  have h3: "getEvaluatorRules (snd (getMerchantSettings ?st ?m)) ?m =
      (sampleRules ?m, snd (getEvaluatorRules (snd (getMerchantSettings ?st ?m)) ?m))"
    using rl by (metis prod.collapse)
  show ?thesis
    using h1 calculateRiskScore_additive [OF h1 h2 h3, of sample_builtins "sample_draws ''1''" "sample_draws ''2''"]
    by (simp add: risky_event_contributions DEFAULT_MERCHANT_SETTINGS_def)
qed

section \<open>Failure of the risk calculation\<close>

lemma calculateRiskScore_try_fails:
  "\<not> ev_producerConnected st \<Longrightarrow> \<exists>err st'. calculateRiskScore_try B D st e = Inl (err, st')"
proof -
  assume a: "\<not> ev_producerConnected st"
  obtain ms st1 where s1: "getMerchantSettings st (merchantId e) = (ms, st1)" by fastforce
  obtain rules st2 where s2: "getEvaluatorRules st1 (merchantId e) = (rules, st2)" by fastforce
  have c1: "\<not> ev_producerConnected st1"
    using a s1 by (auto simp: getMerchantSettings_def Let_def split: if_splits option.splits)
  have c2: "\<not> ev_producerConnected st2"
    using c1 s2 by (auto simp: getEvaluatorRules_def Let_def split: if_splits option.splits)
  show ?thesis using s1 s2 c2 by (simp add: calculateRiskScore_try_def produceEvent_def)
qed

text \<open>
  C7. When the \<^verbatim>\<open>try\<close> block of \<^verbatim>\<open>calculateRiskScore\<close> raises an error, the function still
  returns a risk score: its score is 0, its only risk factor is \<open>calculation_error\<close> and
  its fraud flag is off. A producer that is not connected is such an error
  (\<open>calculateRiskScore_try_fails\<close>).
\<close>

theorem calculateRiskScore_fail_open:
  assumes "calculateRiskScore_try B D st e = Inl (err, st')"
  shows "calculateRiskScore B D D' st e = (fallbackRiskScore D' e, st') \<and>
         score (fst (calculateRiskScore B D D' st e)) = 0 \<and>
         riskFactors (fst (calculateRiskScore B D D' st e)) = [''calculation_error''] \<and>
         \<not> isFraud (fst (calculateRiskScore B D D' st e))"
  using assms by (simp add: calculateRiskScore_def fallbackRiskScore_def)

theorem calculateRiskScore_fail_open_witness:
  "\<not> ev_producerConnected (evaluator_with True False) \<and>
   score (fst (calculateRiskScore sample_builtins (sample_draws ''1'') (sample_draws ''2'')
                 (evaluator_with True False) risky_event)) = 0 \<and>
   riskFactors (fst (calculateRiskScore sample_builtins (sample_draws ''1'') (sample_draws ''2'')
                 (evaluator_with True False) risky_event)) = [''calculation_error''] \<and>
   \<not> isFraud (fst (calculateRiskScore sample_builtins (sample_draws ''1'') (sample_draws ''2'')
                 (evaluator_with True False) risky_event))"
proof -
  have d: "\<not> ev_producerConnected (evaluator_with True False)" by (simp add: evaluator_with_def)
  from calculateRiskScore_try_fails [OF d] obtain err st' where
    t: "calculateRiskScore_try sample_builtins (sample_draws ''1'') (evaluator_with True False) risky_event = Inl (err, st')"
    by blast
  show ?thesis using d calculateRiskScore_fail_open [OF t, of "sample_draws ''2''"] by blast
qed

section \<open>Velocity counters\<close>

lemma countHit_store:
  assumes "ev_redisClient st"
  shows "\<exists>n st'. countHit st key = Inr (n, st') \<and> ev_redisClient st' \<and>
           velocityStore st' = (velocityStore st)(key := bumped (velocityStore st key)) \<and>
           map_option fst (bumped (velocityStore st key)) = Some n"
proof (cases "velocityStore st key")
  case None
  then show ?thesis using assms
    by (simp add: countHit_def incrRedisValue_def setRedisValue_def ttl24h_def)
next
  case (Some p)
  obtain n t where p: "p = (n, t)" by (cases p)
  show ?thesis
  proof (cases "n + 1 = 1")
    case True
    then show ?thesis using assms Some p
      by (simp add: countHit_def incrRedisValue_def setRedisValue_def ttl24h_def)
  next
    case False
    then show ?thesis using assms Some p
      by (simp add: countHit_def incrRedisValue_def)
  qed
qed

lemma keys_distinct:
  "merchantSessionKey e \<noteq> ipSessionKey e" "merchantSessionKey e \<noteq> deviceKey e"
  "ipSessionKey e \<noteq> deviceKey e" "lastSeenKey e \<noteq> merchantSessionKey e"
  "lastSeenKey e \<noteq> ipSessionKey e" "lastSeenKey e \<noteq> deviceKey e"
  by (simp_all add: merchantSessionKey_def ipSessionKey_def deviceKey_def lastSeenKey_def)

lemma getVelocityData_store:
  assumes "ev_redisClient st"
  shows "velocityStore (snd (getVelocityData now st e)) =
       (velocityStore st)
         (merchantSessionKey e := bumped (velocityStore st (merchantSessionKey e)),
          ipSessionKey e := bumped (velocityStore st (ipSessionKey e)),
          deviceKey e := bumped (velocityStore st (deviceKey e)),
          lastSeenKey e \<mapsto> (now, Some ttl24h))"
    and "sessionCount24h (fst (getVelocityData now st e)) =
           map_option fst (bumped (velocityStore st (merchantSessionKey e)))"
    and "ipSessionCount24h (fst (getVelocityData now st e)) =
           map_option fst (bumped (velocityStore st (ipSessionKey e)))"
    and "deviceSessionCount24h (fst (getVelocityData now st e)) =
           map_option fst (bumped (velocityStore st (deviceKey e)))"
    and "ev_redisClient (snd (getVelocityData now st e))"
proof -
  from countHit_store [OF assms, of "merchantSessionKey e"] obtain n1 st1 where
    a1: "countHit st (merchantSessionKey e) = Inr (n1, st1)" and r1: "ev_redisClient st1"
    and s1: "velocityStore st1 = (velocityStore st)(merchantSessionKey e := bumped (velocityStore st (merchantSessionKey e)))"
    and m1: "map_option fst (bumped (velocityStore st (merchantSessionKey e))) = Some n1"
    by blast
  from countHit_store [OF r1, of "ipSessionKey e"] obtain n2 st2 where
    a2: "countHit st1 (ipSessionKey e) = Inr (n2, st2)" and r2: "ev_redisClient st2"
    and s2: "velocityStore st2 = (velocityStore st1)(ipSessionKey e := bumped (velocityStore st1 (ipSessionKey e)))"
    and m2: "map_option fst (bumped (velocityStore st1 (ipSessionKey e))) = Some n2"
    by blast
  from countHit_store [OF r2, of "deviceKey e"] obtain n3 st3 where
    a3: "countHit st2 (deviceKey e) = Inr (n3, st3)" and r3: "ev_redisClient st3"
    and s3: "velocityStore st3 = (velocityStore st2)(deviceKey e := bumped (velocityStore st2 (deviceKey e)))"
    and m3: "map_option fst (bumped (velocityStore st2 (deviceKey e))) = Some n3"
    by blast
  have k2: "velocityStore st1 (ipSessionKey e) = velocityStore st (ipSessionKey e)"
    using s1 keys_distinct(1) [of e] by simp
  have k3: "velocityStore st2 (deviceKey e) = velocityStore st (deviceKey e)"
    using s1 s2 keys_distinct(2,3) [of e] by simp
  have s2': "velocityStore st2 =
      (velocityStore st)
        (merchantSessionKey e := bumped (velocityStore st (merchantSessionKey e)),
         ipSessionKey e := bumped (velocityStore st (ipSessionKey e)))"
  proof -
    have "velocityStore st2 = (velocityStore st1)(ipSessionKey e := bumped (velocityStore st (ipSessionKey e)))"
      using s2 by (simp only: k2)
    then show ?thesis by (simp only: s1)
  qed
  have s3': "velocityStore st3 =
      (velocityStore st)
        (merchantSessionKey e := bumped (velocityStore st (merchantSessionKey e)),
         ipSessionKey e := bumped (velocityStore st (ipSessionKey e)),
         deviceKey e := bumped (velocityStore st (deviceKey e)))"
  proof -
    have "velocityStore st3 = (velocityStore st2)(deviceKey e := bumped (velocityStore st (deviceKey e)))"
      using s3 by (simp only: k3)
    then show ?thesis by (simp only: s2')
  qed
  have m2': "map_option fst (bumped (velocityStore st (ipSessionKey e))) = Some n2"
    using m2 by (simp only: k2)
  have m3': "map_option fst (bumped (velocityStore st (deviceKey e))) = Some n3"
    using m3 by (simp only: k3)
  have tr: "getVelocityData_try now st e =
      Inr (\<lparr>sessionCount24h = Some n1, ipSessionCount24h = Some n2, deviceSessionCount24h = Some n3,
            lastSeenTimestamp = map_option fst (velocityStore st3 (lastSeenKey e))\<rparr>,
           st3\<lparr>velocityStore := (velocityStore st3)(lastSeenKey e \<mapsto> (now, Some ttl24h))\<rparr>)"
    using r3 by (simp add: getVelocityData_try_def a1 a2 a3 getRedisValue_def setRedisValue_def ttl24h_def)
  have res: "getVelocityData now st e =
      (\<lparr>sessionCount24h = Some n1, ipSessionCount24h = Some n2, deviceSessionCount24h = Some n3,
        lastSeenTimestamp = map_option fst (velocityStore st3 (lastSeenKey e))\<rparr>,
       st3\<lparr>velocityStore := (velocityStore st3)(lastSeenKey e \<mapsto> (now, Some ttl24h))\<rparr>)"
    by (simp only: getVelocityData_def tr sum.case)
  have st: "velocityStore (st3\<lparr>velocityStore := (velocityStore st3)(lastSeenKey e \<mapsto> (now, Some ttl24h))\<rparr>) =
       (velocityStore st)
         (merchantSessionKey e := bumped (velocityStore st (merchantSessionKey e)),
          ipSessionKey e := bumped (velocityStore st (ipSessionKey e)),
          deviceKey e := bumped (velocityStore st (deviceKey e)),
          lastSeenKey e \<mapsto> (now, Some ttl24h))"
    by (simp add: s3')
  have cnt: "Some n1 = map_option fst (bumped (velocityStore st (merchantSessionKey e)))"
    "Some n2 = map_option fst (bumped (velocityStore st (ipSessionKey e)))"
    "Some n3 = map_option fst (bumped (velocityStore st (deviceKey e)))"
    using m1 m2' m3' by (simp_all only:)
  show "velocityStore (snd (getVelocityData now st e)) =
       (velocityStore st)
         (merchantSessionKey e := bumped (velocityStore st (merchantSessionKey e)),
          ipSessionKey e := bumped (velocityStore st (ipSessionKey e)),
          deviceKey e := bumped (velocityStore st (deviceKey e)),
          lastSeenKey e \<mapsto> (now, Some ttl24h))"
    unfolding res using st by (simp only: snd_conv)
  show "sessionCount24h (fst (getVelocityData now st e)) =
           map_option fst (bumped (velocityStore st (merchantSessionKey e)))"
    unfolding res by (simp only: fst_conv VelocityData.simps cnt)
  show "ipSessionCount24h (fst (getVelocityData now st e)) =
           map_option fst (bumped (velocityStore st (ipSessionKey e)))"
    unfolding res by (simp only: fst_conv VelocityData.simps cnt)
  show "deviceSessionCount24h (fst (getVelocityData now st e)) =
           map_option fst (bumped (velocityStore st (deviceKey e)))"
    unfolding res by (simp only: fst_conv VelocityData.simps cnt)
  show "ev_redisClient (snd (getVelocityData now st e))"
    unfolding res using r3 by simp
qed

lemma getMerchantSettings_keeps:
  "ev_redisClient (snd (getMerchantSettings st m)) = ev_redisClient st"
  "velocityStore (snd (getMerchantSettings st m)) = velocityStore st"
  by (simp_all add: getMerchantSettings_def Let_def split: option.splits)

lemma keys_of_updated_event:
  "merchantSessionKey (e\<lparr>anonymizedIp := a\<rparr>) = merchantSessionKey e"
  "ipSessionKey (e\<lparr>anonymizedIp := a\<rparr>) = ipSessionKey e"
  "deviceKey (e\<lparr>anonymizedIp := a\<rparr>) = deviceKey e"
  "lastSeenKey (e\<lparr>anonymizedIp := a\<rparr>) = lastSeenKey e"
  "merchantSessionKey (e\<lparr>geoData := g\<rparr>) = merchantSessionKey e"
  "ipSessionKey (e\<lparr>geoData := g\<rparr>) = ipSessionKey e"
  "deviceKey (e\<lparr>geoData := g\<rparr>) = deviceKey e"
  "lastSeenKey (e\<lparr>geoData := g\<rparr>) = lastSeenKey e"
  by (simp_all add: merchantSessionKey_def ipSessionKey_def deviceKey_def lastSeenKey_def)

lemma enrichData_store:
  assumes "ev_redisClient st"
  shows "velocityStore (snd (enrichData lookupIp now st e)) =
       (velocityStore st)
         (merchantSessionKey e := bumped (velocityStore st (merchantSessionKey e)),
          ipSessionKey e := bumped (velocityStore st (ipSessionKey e)),
          deviceKey e := bumped (velocityStore st (deviceKey e)),
          lastSeenKey e \<mapsto> (now, Some ttl24h))"
proof -
  obtain ms st1 where g: "getMerchantSettings st (merchantId e) = (ms, st1)" by fastforce
  have r1: "ev_redisClient st1" and v1: "velocityStore st1 = velocityStore st"
    using getMerchantSettings_keeps [of st "merchantId e"] g assms by simp_all
  let ?e1 = "if ipAnonymization ms then e\<lparr>anonymizedIp := Some (anonymizeIp (ipAddress e))\<rparr> else e"
  let ?e2 = "?e1\<lparr>geoData := Some (lookupIp (ipAddress e))\<rparr>"
  have keys: "merchantSessionKey ?e2 = merchantSessionKey e" "ipSessionKey ?e2 = ipSessionKey e"
    "deviceKey ?e2 = deviceKey e" "lastSeenKey ?e2 = lastSeenKey e"
    by (simp_all add: keys_of_updated_event)
  have vs: "velocityStore (snd (getVelocityData now st1 ?e2)) =
       (velocityStore st1)
         (merchantSessionKey ?e2 := bumped (velocityStore st1 (merchantSessionKey ?e2)),
          ipSessionKey ?e2 := bumped (velocityStore st1 (ipSessionKey ?e2)),
          deviceKey ?e2 := bumped (velocityStore st1 (deviceKey ?e2)),
          lastSeenKey ?e2 \<mapsto> (now, Some ttl24h))"
    by (rule getVelocityData_store(1) [OF r1])
  have "snd (enrichData lookupIp now st e) = snd (getVelocityData now st1 ?e2)"
    using g by (simp add: enrichData_def Let_def split_def)
  then show ?thesis using vs unfolding keys v1 by simp
qed

text \<open>
  What one enrichment does to the velocity store when the Redis client is available: each
  of the three keys that \<^verbatim>\<open>getVelocityData\<close> builds is hit once, its count goes up by one, and
  it gets its lifetime of 24 hours exactly when its count after the hit is 1; otherwise
  its lifetime is left as it was. No other key changes, but the device's last-seen stamp.
\<close>

lemma enrichData_counters:
  assumes "ev_redisClient st"
  shows "(\<forall>k\<in>set (counterKeys e).
            velocityStore (snd (enrichData lookupIp now st e)) k = bumped (velocityStore st k)) \<and>
         (\<forall>k. k \<notin> set (counterKeys e) \<and> k \<noteq> lastSeenKey e \<longrightarrow>
            velocityStore (snd (enrichData lookupIp now st e)) k = velocityStore st k)"
  using keys_distinct [of e]
  by (auto simp: enrichData_store [OF assms] counterKeys_def)


lemma enrichData_first_hit:
  "ev_redisClient (evaluator_with True True) \<and>
   velocityStore (snd (enrichData (\<lambda>ip. sample_geo ''US'') 0 (evaluator_with True True)
                        (first_event ''session-1'')))
     (merchantSessionKey (first_event ''session-1'')) = Some (1, Some 86400)"
proof -
  let ?st = "evaluator_with True True"
  let ?e = "first_event ''session-1''"
  have h: "ev_redisClient ?st" by (simp add: evaluator_with_def)
  from enrichData_counters [OF h, of ?e "\<lambda>ip. sample_geo ''US''" 0]
  have "\<forall>k\<in>set (counterKeys ?e).
          velocityStore (snd (enrichData (\<lambda>ip. sample_geo ''US'') 0 ?st ?e)) k = bumped (velocityStore ?st k)"
    by blast
  then have "velocityStore (snd (enrichData (\<lambda>ip. sample_geo ''US'') 0 ?st ?e)) (merchantSessionKey ?e) =
      bumped (velocityStore ?st (merchantSessionKey ?e))"
    by (simp add: counterKeys_def)
  then show ?thesis using h by (simp add: evaluator_with_def ttl24h_def)
qed

text \<open>
  C8. The first of the three counters is keyed by the merchant and not by the pair of
  merchant and session, although \<^verbatim>\<open>getVelocityData\<close> reads the session id and its comment
  speaks of the first hit of the session: two evaluations of one merchant in different
  sessions hit the same key, and the second reads the count 2, where a counter of its own
  session would read 1.
\<close>

theorem velocity_sessions_share_counter:
  "sessionId (first_event ''session-1'') \<noteq> sessionId (first_event ''session-2'') \<and>
   merchantSessionKey (first_event ''session-1'') = merchantSessionKey (first_event ''session-2'') \<and>
   sessionCount24h
     (fst (getVelocityData 0
            (snd (getVelocityData 0 (evaluator_with True True) (first_event ''session-1'')))
            (first_event ''session-2''))) = Some 2"
proof -
  let ?st = "evaluator_with True True"
  let ?e1 = "first_event ''session-1''"
  let ?e2 = "first_event ''session-2''"
  have h: "ev_redisClient ?st" by (simp add: evaluator_with_def)
  have k: "merchantSessionKey ?e2 = merchantSessionKey ?e1"
    by (simp add: merchantSessionKey_def first_event_def sample_event_def)
  have s: "sessionId ?e1 \<noteq> sessionId ?e2"
    by (simp add: first_event_def sample_event_def)
  have h1: "ev_redisClient (snd (getVelocityData 0 ?st ?e1))"
    by (rule getVelocityData_store(5) [OF h])
  have v1: "velocityStore (snd (getVelocityData 0 ?st ?e1)) (merchantSessionKey ?e1) =
      bumped (velocityStore ?st (merchantSessionKey ?e1))"
    using keys_distinct [of ?e1] by (simp add: getVelocityData_store(1) [OF h])
  have "sessionCount24h (fst (getVelocityData 0 (snd (getVelocityData 0 ?st ?e1)) ?e2)) =
      map_option fst (bumped (bumped (velocityStore ?st (merchantSessionKey ?e1))))"
    by (simp only: getVelocityData_store(2) [OF h1] k v1)
  then show ?thesis using s k by (simp add: evaluator_with_def)
qed

section \<open>Commits of the consumer loop\<close>

lemma poll_running:
  assumes "isRunning cs" and "hasConsumer cs"
  shows "isRunning (poll B cfg D interval cs outcome) \<and> hasConsumer (poll B cfg D interval cs outcome)"
  using assms by (cases outcome) (simp_all add: poll_def)

lemma poll_commit:
  assumes "isRunning cs" and "hasConsumer cs"
  shows "committedBatches (poll B cfg D interval cs outcome) = committedBatches cs @ committable outcome"
  using assms by (cases outcome) (simp_all add: poll_def)

lemma poll_timer:
  assumes "isRunning cs" and "hasConsumer cs"
  shows "pollTimer (poll B cfg D interval cs outcome) =
           Some (case outcome of ConsumeMessages ms \<Rightarrow> interval | _ \<Rightarrow> 5000)"
  using assms by (cases outcome) (simp_all add: poll_def)

text \<open>
  What the loop does while the consumer runs: it calls \<^verbatim>\<open>commit\<close> after every batch that
  \<^verbatim>\<open>consume\<close> delivers without an error and that is not empty, and after nothing else; after
  every poll the consumer still runs and the next poll is scheduled.
\<close>

lemma pollLoop_commits:
  assumes "isRunning cs" and "hasConsumer cs"
  shows "committedBatches (pollLoop B cfg D interval cs outcomes) =
           committedBatches cs @ concat (map committable outcomes) \<and>
         isRunning (pollLoop B cfg D interval cs outcomes) \<and>
         hasConsumer (pollLoop B cfg D interval cs outcomes) \<and>
         (outcomes \<noteq> [] \<longrightarrow> pollTimer (pollLoop B cfg D interval cs outcomes) \<noteq> None)"
  using assms
proof (induction outcomes arbitrary: cs)
  case Nil
  then show ?case by simp
next
  case (Cons outcome rest)
  let ?cs1 = "poll B cfg D interval cs outcome"
  have run: "isRunning ?cs1" "hasConsumer ?cs1"
    using poll_running [OF Cons.prems] by simp_all
  have com: "committedBatches ?cs1 = committedBatches cs @ committable outcome"
    by (rule poll_commit [OF Cons.prems])
  have tim: "pollTimer ?cs1 \<noteq> None"
    by (simp add: poll_timer [OF Cons.prems])
  show ?case
  proof (cases "rest = []")
    case True
    then show ?thesis using run com tim by simp
  next
    case False
    then show ?thesis using Cons.IH [OF run] com by simp
  qed
qed

lemma pollLoop_commits_example:
  "isRunning (consumer_with (decisioner_with Map.empty True)) \<and>
   committedBatches
     (pollLoop sample_builtins default_config sample_clock 100
        (consumer_with (decisioner_with Map.empty True))
        [ConsumeError, ConsumeMessages [], ConsumeMessages [sample_message]]) = [[sample_message]]"
proof -
  let ?cs = "consumer_with (decisioner_with Map.empty True)"
  have h1: "isRunning ?cs" and h2: "hasConsumer ?cs" by (simp_all add: consumer_with_def)
  show ?thesis
    using h1 pollLoop_commits [OF h1 h2, of sample_builtins default_config sample_clock 100
        "[ConsumeError, ConsumeMessages [], ConsumeMessages [sample_message]]"]
    by (simp add: consumer_with_def)
qed

lemma sample_parse: "parseMessage sample_message = Some sample_score"
  by (simp add: parseMessage_def sample_message_def sample_score_def)

lemma sample_try_fails:
  "\<exists>st'. processRiskScore_try sample_builtins default_config 0 ''decision-1''
           (decisioner_with Map.empty False) sample_score = Inl (ProducerNotConnected, st')"
  by (simp add: processRiskScore_try_def makeDecision_def getMerchantRules_def
        redis_getMerchantRules_def redis_storeDecision_def publishDecision_def decisioner_with_def)

text \<open>
  C9. A batch is committed although the handler failed on a message of it. \<^verbatim>\<open>poll\<close> calls
  \<^verbatim>\<open>commit\<close> inside the \<^verbatim>\<open>try\<close>, after \<^verbatim>\<open>processMessages\<close>, so that an error would skip it; but
  \<^verbatim>\<open>processMessages\<close> and \<^verbatim>\<open>processRiskScore\<close> catch every error, and none reaches \<^verbatim>\<open>poll\<close>. With
  the producer not connected, the decision for the message is not published, the error
  is logged, and the offset of the batch is committed all the same.
\<close>

theorem poll_commits_failed_batch:
  "handlerFails sample_builtins default_config sample_clock (decisioner_with Map.empty False) sample_message \<and>
   committedBatches
     (poll sample_builtins default_config sample_clock 100
        (consumer_with (decisioner_with Map.empty False)) (ConsumeMessages [sample_message])) =
     [[sample_message]] \<and>
   published
     (service (poll sample_builtins default_config sample_clock 100
        (consumer_with (decisioner_with Map.empty False)) (ConsumeMessages [sample_message]))) = [] \<and>
   errorLog
     (service (poll sample_builtins default_config sample_clock 100
        (consumer_with (decisioner_with Map.empty False)) (ConsumeMessages [sample_message]))) =
     [ProducerNotConnected]"
proof -
  let ?st = "decisioner_with Map.empty False"
  from sample_try_fails obtain st' where
    t: "processRiskScore_try sample_builtins default_config 0 ''decision-1'' ?st sample_score =
          Inl (ProducerNotConnected, st')" by blast
  have d: "dateNow sample_clock (msg_offset sample_message) = 0"
          "uuidv4 sample_clock (msg_offset sample_message) = ''decision-1''"
    by (simp_all add: sample_clock_def)
  have f: "handlerFails sample_builtins default_config sample_clock ?st sample_message"
    by (simp add: handlerFails_def sample_parse d t)
  have pub: "published st' = []"
    using t
    by (auto simp: processRiskScore_try_def makeDecision_def getMerchantRules_def
          redis_getMerchantRules_def redis_storeDecision_def publishDecision_def decisioner_with_def)
  have el: "errorLog st' = []"
    using t
    by (auto simp: processRiskScore_try_def makeDecision_def getMerchantRules_def
          redis_getMerchantRules_def redis_storeDecision_def publishDecision_def decisioner_with_def)
  have s: "processMessages sample_builtins default_config sample_clock ?st [sample_message] =
           st'\<lparr>errorLog := errorLog st' @ [ProducerNotConnected]\<rparr>"
    by (simp add: sample_parse d processRiskScore_def t)
  have c: "committedBatches
     (poll sample_builtins default_config sample_clock 100 (consumer_with ?st)
        (ConsumeMessages [sample_message])) = [[sample_message]]"
    by (simp add: poll_def consumer_with_def)
  have p: "service (poll sample_builtins default_config sample_clock 100 (consumer_with ?st)
        (ConsumeMessages [sample_message])) =
      processMessages sample_builtins default_config sample_clock ?st [sample_message]"
    by (simp add: poll_def consumer_with_def)
  show ?thesis using f c pub el by (simp only: p s) simp
qed

text \<open>The consumer of this instance runs and has its client, so the poll is not skipped.\<close>

theorem poll_commits_failed_batch_running:
  "isRunning (consumer_with (decisioner_with Map.empty False)) \<and>
   hasConsumer (consumer_with (decisioner_with Map.empty False)) \<and>
   handlerFails sample_builtins default_config sample_clock (decisioner_with Map.empty False) sample_message \<and>
   committedBatches
     (poll sample_builtins default_config sample_clock 100
        (consumer_with (decisioner_with Map.empty False)) (ConsumeMessages [sample_message])) =
     [[sample_message]]"
  using poll_commits_failed_batch by (simp add: consumer_with_def)

end
